theory Spec2Isabelle
  imports Complex_Main "HOL-Library.Log_Nat"
begin

section \<open>SurveyUploader: the spreadsheet extractor and the Dataverse update loop\<close>

text \<open>
  The source file \<^verbatim>\<open>src/SurveyUploader/index.ts\<close> holds two copies of the class
  \<^verbatim>\<open>SurveyUploader\<close>. The first copy (lines 16-711) is the one verified here;
  of the second copy (lines 727-1130) only \<^verbatim>\<open>parseExcelData\<close> is embedded, under
  the name \<open>parseExcelData2\<close>.

  Console logging and the free-text status line are not part of the model. Everything
  else a function does is: the values it returns, the errors it throws (a sum type,
  \<open>Inl\<close> the thrown value), the calls it makes to the remote Web API (a call log), the
  percentages it hands to the progress bar (a progress log) and the result list it
  hands to the result panel. The writes to the DOM themselves are taken not to throw:
  \<^verbatim>\<open>createUI\<close> builds every element they look up. An \<^verbatim>\<open>await\<close> is a call that
  returns before the next statement runs, as the source runs one remote call at a time.
\<close>

subsection \<open>Values of the decoded sheet\<close>

text \<open>
  \<^verbatim>\<open>jsonData: any[]\<close> is what \<^verbatim>\<open>XLSX.utils.sheet_to_json(..., {header: 1})\<close> returns:
  an array of rows, a row an array of cells. A cell is a string, a number, a boolean,
  \<^verbatim>\<open>null\<close> or \<^verbatim>\<open>undefined\<close> (also what reading a hole or an index past the end
  gives). Numbers are the integer-valued ones, so that \<^verbatim>\<open>toString()\<close> is the decimal
  numeral. An entry of \<^verbatim>\<open>jsonData\<close> that is not an array is \<^verbatim>\<open>null\<close>,
  \<^verbatim>\<open>undefined\<close> or a plain object without a \<^verbatim>\<open>length\<close> property.
\<close>

datatype cell = CStr string | CNum int | CBool bool | CNull | CUndef

datatype row = RArr "cell list" | RObj | RNull | RUndef

text \<open>A thrown value: its \<^verbatim>\<open>message\<close> property, when it has one that is a string,
  and what its \<^verbatim>\<open>toString()\<close> gives (empty for a thrown \<^verbatim>\<open>null\<close> or
  \<^verbatim>\<open>undefined\<close>, where \<^verbatim>\<open>error?.toString()\<close> is \<^verbatim>\<open>undefined\<close>).\<close>

datatype thrown = Thrown (message: "string option") (asString: string)

text \<open>\<^verbatim>\<open>new Error(msg)\<close>\<close>

definition Error :: "string \<Rightarrow> thrown" where
  "Error msg = Thrown (Some msg) (''Error: '' @ msg)"

text \<open>What calling a method on \<^verbatim>\<open>null\<close> or \<^verbatim>\<open>undefined\<close> throws.\<close>

definition TypeError :: "string \<Rightarrow> thrown" where
  "TypeError msg = Thrown (Some msg) (''TypeError: '' @ msg)"

record ExcelRow =
  ID :: string
  Response :: string
  Notes :: string

subsection \<open>Strings\<close>

text \<open>
  A \<open>char\<close> stands for a UTF-16 code unit below 256. \<^verbatim>\<open>String.prototype.trim\<close>
  removes white space and line terminators from both ends; below 256 these are
  TAB, LF, VT, FF, CR, SPACE and NBSP.
\<close>

definition isWhiteSpace :: "char \<Rightarrow> bool" where
  "isWhiteSpace c \<longleftrightarrow>
     c \<in> set [CHR 0x09, CHR 0x0A, CHR 0x0B, CHR 0x0C, CHR 0x0D, CHR 0x20, CHR 0xA0]"

definition trim :: "string \<Rightarrow> string" where
  "trim s = rev (dropWhile isWhiteSpace (rev (dropWhile isWhiteSpace s)))"

definition digit :: "nat \<Rightarrow> char" where
  "digit d = ''0123456789'' ! d"

function showNat :: "nat \<Rightarrow> string" where
  "showNat n = (if n < 10 then [digit n] else showNat (n div 10) @ [digit (n mod 10)])"
  by pat_completeness auto
termination
  by (relation "measure id") auto

declare showNat.simps [simp del]

definition showInt :: "int \<Rightarrow> string" where
  "showInt i = (if i < 0 then CHR ''-'' # showNat (nat (- i)) else showNat (nat i))"

text \<open>\<^verbatim>\<open>c.toString()\<close>: a TypeError on \<^verbatim>\<open>null\<close> and \<^verbatim>\<open>undefined\<close>.\<close>

fun toString :: "cell \<Rightarrow> thrown + string" where
  "toString (CStr s) = Inr s"
| "toString (CNum n) = Inr (showInt n)"
| "toString (CBool b) = Inr (if b then ''true'' else ''false'')"
| "toString CNull = Inl (TypeError ''Cannot read properties of null (reading 'toString')'')"
| "toString CUndef = Inl (TypeError ''Cannot read properties of undefined (reading 'toString')'')"

text \<open>\<^verbatim>\<open>c.toString().trim()\<close>\<close>

definition toStringTrim :: "cell \<Rightarrow> thrown + string" where
  "toStringTrim c = (case toString c of Inl e \<Rightarrow> Inl e | Inr s \<Rightarrow> Inr (trim s))"

text \<open>\<^verbatim>\<open>row[i]\<close>: \<^verbatim>\<open>undefined\<close> past the end.\<close>

definition cellAt :: "cell list \<Rightarrow> nat \<Rightarrow> cell" where
  "cellAt r i = (if i < length r then r ! i else CUndef)"

text \<open>\<^verbatim>\<open>c !== undefined && c !== null && c !== ""\<close>\<close>

definition nonBlank :: "cell \<Rightarrow> bool" where
  "nonBlank c \<longleftrightarrow> c \<noteq> CUndef \<and> c \<noteq> CNull \<and> c \<noteq> CStr []"

subsection \<open>parseExcelData (first copy, lines 209-287)\<close>

text \<open>
  The body of the \<^verbatim>\<open>if (row && Array.isArray(row) && row.length >= 1)\<close> block for the
  cells \<open>r\<close> of an array row: the three assignments in the order of the source, then
  the \<^verbatim>\<open>if (id)\<close> guard of the push (\<open>ident\<close> is the source's \<^verbatim>\<open>id\<close>). \<open>None\<close> is
  "nothing pushed".
\<close>

definition parseCells :: "cell list \<Rightarrow> thrown + ExcelRow option" where
  "parseCells r =
    (case (if nonBlank (cellAt r 0) then toStringTrim (cellAt r 0) else Inr []) of
       Inl e \<Rightarrow> Inl e
     | Inr ident \<Rightarrow>
    (case (if 2 < length r \<and> nonBlank (cellAt r 2) then toStringTrim (cellAt r 2)
           else if 1 < length r \<and> nonBlank (cellAt r 1) then toStringTrim (cellAt r 1)
           else Inr []) of
       Inl e \<Rightarrow> Inl e
     | Inr response \<Rightarrow>
    (case (if 3 < length r \<and> nonBlank (cellAt r 3) then toStringTrim (cellAt r 3)
           else if 2 < length r \<and> nonBlank (cellAt r 2) \<and> response = [] then toStringTrim (cellAt r 2)
           else Inr []) of
       Inl e \<Rightarrow> Inl e
     | Inr notes \<Rightarrow>
         Inr (if ident \<noteq> [] then Some \<lparr>ID = ident, Response = response, Notes = notes\<rparr>
              else None))))"

text \<open>One iteration of the loop body on \<^verbatim>\<open>jsonData[i]\<close>.\<close>

fun parseRow :: "row \<Rightarrow> thrown + ExcelRow option" where
  "parseRow (RArr r) = (if 1 \<le> length r then parseCells r else Inr None)"
| "parseRow RObj = Inr None"
| "parseRow RNull = Inr None"
| "parseRow RUndef = Inr None"

text \<open>The \<^verbatim>\<open>for (let i = 1; i < jsonData.length; i++)\<close> loop, with the array being
  filled as accumulator.\<close>

function parseLoop :: "row list \<Rightarrow> nat \<Rightarrow> ExcelRow list \<Rightarrow> thrown + ExcelRow list" where
  "parseLoop jsonData i parsedData =
    (if i < length jsonData then
       (case parseRow (jsonData ! i) of
          Inl e \<Rightarrow> Inl e
        | Inr None \<Rightarrow> parseLoop jsonData (i + 1) parsedData
        | Inr (Some rec) \<Rightarrow> parseLoop jsonData (i + 1) (parsedData @ [rec]))
     else Inr parsedData)"
  by pat_completeness auto
termination
  by (relation "measure (\<lambda>(jsonData, i, parsedData). length jsonData - i)") auto

declare parseLoop.simps [simp del]

definition emptyInputMessage :: string where
  "emptyInputMessage = ''Excel file must contain at least a header row and one data row''"

definition parseExcelData :: "row list \<Rightarrow> thrown + ExcelRow list" where
  "parseExcelData jsonData =
    (if length jsonData < 2 then Inl (Error emptyInputMessage)
     else parseLoop jsonData 1 [])"

subsection \<open>parseExcelData (second copy, lines 874-897)\<close>

text \<open>\<^verbatim>\<open>c?.toString() || ""\<close>: the optional chaining gives \<^verbatim>\<open>undefined\<close> on
  \<^verbatim>\<open>null\<close> and \<^verbatim>\<open>undefined\<close>, which \<^verbatim>\<open>||\<close> turns into the empty string.\<close>

fun toStringOrEmpty :: "cell \<Rightarrow> string" where
  "toStringOrEmpty CNull = []"
| "toStringOrEmpty CUndef = []"
| "toStringOrEmpty c = (case toString c of Inl e \<Rightarrow> [] | Inr s \<Rightarrow> s)"

text \<open>\<^verbatim>\<open>if (row && row.length >= 3)\<close>: a plain object has no \<^verbatim>\<open>length\<close>, and
  \<^verbatim>\<open>undefined >= 3\<close> is false.\<close>

fun parseRow2 :: "row \<Rightarrow> ExcelRow option" where
  "parseRow2 (RArr r) =
     (if 3 \<le> length r
      then Some \<lparr>ID = toStringOrEmpty (cellAt r 0),
                 Response = toStringOrEmpty (cellAt r 2),
                 Notes = toStringOrEmpty (cellAt r 3)\<rparr>
      else None)"
| "parseRow2 RObj = None"
| "parseRow2 RNull = None"
| "parseRow2 RUndef = None"

function parseLoop2 :: "row list \<Rightarrow> nat \<Rightarrow> ExcelRow list \<Rightarrow> ExcelRow list" where
  "parseLoop2 jsonData i parsedData =
    (if i < length jsonData then
       (case parseRow2 (jsonData ! i) of
          None \<Rightarrow> parseLoop2 jsonData (i + 1) parsedData
        | Some rec \<Rightarrow> parseLoop2 jsonData (i + 1) (parsedData @ [rec]))
     else parsedData)"
  by pat_completeness auto
termination
  by (relation "measure (\<lambda>(jsonData, i, parsedData). length jsonData - i)") auto

declare parseLoop2.simps [simp del]

definition parseExcelData2 :: "row list \<Rightarrow> thrown + ExcelRow list" where
  "parseExcelData2 jsonData =
    (if length jsonData < 2 then Inl (Error emptyInputMessage)
     else Inr (parseLoop2 jsonData 1 []))"

subsection \<open>The remote Web API and the state of the control\<close>

record UpdateResult =
  success :: bool
  recordId :: string
  error :: "string option"

record entity =
  afsdc_questionresponseinstanceid :: string
  afsdc_name :: string

text \<open>
  \<^verbatim>\<open>this._context.webAPI\<close>, the remote store: each operation reads and changes a
  store of some type \<open>'s\<close> and either rejects (\<open>Inl\<close>) or resolves. What
  \<^verbatim>\<open>retrieveMultipleRecords\<close> resolves to is the \<^verbatim>\<open>entities\<close> array of the
  response, \<open>None\<close> for a falsy response. The payload of \<^verbatim>\<open>updateRecord\<close> is the
  list of the object's keys and values, in the order they were set.
\<close>

record 's webAPI =
  retrieveMultipleRecords :: "string \<Rightarrow> string \<Rightarrow> 's \<Rightarrow> (thrown + entity list option) \<times> 's"
  updateRecord :: "string \<Rightarrow> string \<Rightarrow> (string \<times> string) list \<Rightarrow> 's \<Rightarrow> (thrown + unit) \<times> 's"

datatype call =
  RetrieveMultipleRecords string string
| UpdateRecord string string "(string \<times> string) list"

text \<open>
  What the control holds and shows: the remote store, the log of the calls made to
  it, the percentages given to \<^verbatim>\<open>updateModalProgress\<close> in order, the field
  \<^verbatim>\<open>this._parsedData\<close>, and the list given to \<^verbatim>\<open>displayModalResults\<close> (\<open>None\<close>
  while it was not called). The timeline interleaves two kinds of moments in the
  order they happen: a record's outcome being pushed onto \<^verbatim>\<open>results\<close>, with which
  the record is complete, and a percentage being given to the progress bar.
\<close>

datatype event = RecordDone UpdateResult | ProgressSet int

record 's world =
  remote :: 's
  calls :: "call list"
  progressLog :: "int list"
  thisParsedData :: "ExcelRow list"
  displayed :: "UpdateResult list option"
  timeline :: "event list"

definition callRetrieve ::
  "'s webAPI \<Rightarrow> string \<Rightarrow> string \<Rightarrow> 's world \<Rightarrow> (thrown + entity list option) \<times> 's world" where
  "callRetrieve api entityName query w =
    (case retrieveMultipleRecords api entityName query (remote w) of
       (res, s) \<Rightarrow>
         (res, w\<lparr>remote := s, calls := calls w @ [RetrieveMultipleRecords entityName query]\<rparr>))"

definition callUpdate ::
  "'s webAPI \<Rightarrow> string \<Rightarrow> string \<Rightarrow> (string \<times> string) list \<Rightarrow> 's world
     \<Rightarrow> (thrown + unit) \<times> 's world" where
  "callUpdate api entityName ident payload w =
    (case updateRecord api entityName ident payload (remote w) of
       (res, s) \<Rightarrow>
         (res, w\<lparr>remote := s, calls := calls w @ [UpdateRecord entityName ident payload]\<rparr>))"

definition updateModalProgress :: "int \<Rightarrow> 's world \<Rightarrow> 's world" where
  "updateModalProgress percentage w =
     w\<lparr>progressLog := progressLog w @ [percentage],
       timeline := timeline w @ [ProgressSet percentage]\<rparr>"

text \<open>\<^verbatim>\<open>results.push(result)\<close>, as a moment of the timeline; the array itself is the
  accumulator of the loop.\<close>

definition pushResult :: "UpdateResult \<Rightarrow> 's world \<Rightarrow> 's world" where
  "pushResult result w = w\<lparr>timeline := timeline w @ [RecordDone result]\<rparr>"

definition displayModalResults :: "UpdateResult list \<Rightarrow> 's world \<Rightarrow> 's world" where
  "displayModalResults results w = w\<lparr>displayed := Some results\<rparr>"

subsection \<open>updateDataverseRecord (first copy, lines 472-602)\<close>

definition quote :: string where
  "quote = [CHR 0x27]"

text \<open>\<^verbatim>\<open>query1\<close> and \<^verbatim>\<open>query2\<close> are the same string; \<^verbatim>\<open>query3\<close> is the probe.\<close>

definition filterQuery :: "string \<Rightarrow> string" where
  "filterQuery cleanId =
     ''?$filter=afsdc_name eq '' @ quote @ cleanId @ quote
       @ ''&$select=afsdc_questionresponseinstanceid,afsdc_name''"

definition probeQuery :: string where
  "probeQuery = ''?$select=afsdc_questionresponseinstanceid,afsdc_name&$top=5''"

text \<open>\<^verbatim>\<open>a || b\<close> on strings, where \<open>None\<close> is \<^verbatim>\<open>undefined\<close>.\<close>

definition orElse :: "string option \<Rightarrow> string \<Rightarrow> string" where
  "orElse a b = (case a of None \<Rightarrow> b | Some s \<Rightarrow> if s = [] then b else s)"

text \<open>
  The nested \<^verbatim>\<open>try\<close> blocks of lines 484-539. \<open>Inl\<close> is a \<^verbatim>\<open>return\<close> from
  \<^verbatim>\<open>updateDataverseRecord\<close> inside the innermost block, \<open>Inr\<close> the value assigned
  to \<^verbatim>\<open>retrieveResponse\<close>. Every rejection is caught here.
\<close>

definition lookupRecord ::
  "'s webAPI \<Rightarrow> ExcelRow \<Rightarrow> string \<Rightarrow> 's world \<Rightarrow> (UpdateResult + entity list option) \<times> 's world" where
  "lookupRecord api row cleanId w =
    (case callRetrieve api ''afsdc_questionresponseinstances'' (filterQuery cleanId) w of
       (Inr retrieveResponse, w1) \<Rightarrow> (Inr retrieveResponse, w1)
     | (Inl error1, w1) \<Rightarrow>
    (case callRetrieve api ''afsdc_questionresponseinstance'' (filterQuery cleanId) w1 of
       (Inr retrieveResponse, w2) \<Rightarrow> (Inr retrieveResponse, w2)
     | (Inl error2, w2) \<Rightarrow>
    (case callRetrieve api ''afsdc_questionresponseinstances'' probeQuery w2 of
       (Inr testResponse, w3) \<Rightarrow>
         (Inl \<lparr>success = False, recordId = ID row,
               error = Some (''Record '' @ quote @ cleanId @ quote @ '' not found in entity'')\<rparr>,
          w3)
     | (Inl error3, w3) \<Rightarrow>
         (Inl \<lparr>success = False, recordId = ID row,
               error = Some (''Entity access error: ''
                             @ orElse (message error3) ''Unknown error'')\<rparr>,
          w3))))"

text \<open>\<^verbatim>\<open>updateData\<close>: a key is set when the field is truthy and not empty after
  trimming.\<close>

definition updateData :: "ExcelRow \<Rightarrow> (string \<times> string) list" where
  "updateData row =
     (if Response row \<noteq> [] \<and> trim (Response row) \<noteq> []
      then [(''afsdc_response'', trim (Response row))] else [])
     @ (if Notes row \<noteq> [] \<and> trim (Notes row) \<noteq> []
        then [(''afsdc_comments'', trim (Notes row))] else [])"

text \<open>The body of the outer \<^verbatim>\<open>try\<close>: \<open>Inl\<close> is a value thrown in it and not caught
  by an inner handler, which is the rejection of \<^verbatim>\<open>updateRecord\<close> only.\<close>

definition tryUpdate ::
  "'s webAPI \<Rightarrow> ExcelRow \<Rightarrow> 's world \<Rightarrow> (thrown + UpdateResult) \<times> 's world" where
  "tryUpdate api row w =
    (let cleanId = trim (ID row) in
     case lookupRecord api row cleanId w of
       (Inl returned, w1) \<Rightarrow> (Inr returned, w1)
     | (Inr retrieveResponse, w1) \<Rightarrow>
         (case retrieveResponse of
            None \<Rightarrow>
              (Inr \<lparr>success = False, recordId = ID row,
                    error = Some (''Record not found: '' @ quote @ cleanId @ quote)\<rparr>, w1)
          | Some [] \<Rightarrow>
              (Inr \<lparr>success = False, recordId = ID row,
                    error = Some (''Record not found: '' @ quote @ cleanId @ quote)\<rparr>, w1)
          | Some (existingRecord # others) \<Rightarrow>
              (if length (updateData row) = 0
               then (Inr \<lparr>success = False, recordId = ID row,
                          error = Some ''No data to update (Response and Notes are empty)''\<rparr>,
                     w1)
               else
                 (case callUpdate api ''afsdc_questionresponseinstance''
                         (afsdc_questionresponseinstanceid existingRecord) (updateData row) w1 of
                    (Inl e, w2) \<Rightarrow> (Inl e, w2)
                  | (Inr u, w2) \<Rightarrow>
                      (Inr \<lparr>success = True, recordId = ID row, error = None\<rparr>, w2)))))"

text \<open>The function with its outer \<^verbatim>\<open>catch\<close>. \<open>Inl\<close> would be a rejection of the
  promise the \<^verbatim>\<open>async\<close> function returns.\<close>

definition updateDataverseRecord ::
  "'s webAPI \<Rightarrow> ExcelRow \<Rightarrow> 's world \<Rightarrow> (thrown + UpdateResult) \<times> 's world" where
  "updateDataverseRecord api row w =
    (case tryUpdate api row w of
       (Inr result, w1) \<Rightarrow> (Inr result, w1)
     | (Inl e, w1) \<Rightarrow>
         (Inr \<lparr>success = False, recordId = ID row,
               error = Some (''Update failed: ''
                             @ orElse (message e) (orElse (Some (asString e)) ''Unknown error''))\<rparr>,
          w1))"

subsection \<open>processDataverseUpdates (first copy, lines 334-369)\<close>

text \<open>
  \<^verbatim>\<open>Math.round(((i + 1) / totalRecords) * 100)\<close> on IEEE 754 doubles. The division
  and the multiplication each deliver the double nearest to the exact result, ties
  going to the even significand; \<open>toDouble\<close> is that rounding, to 53 significant
  bits. The exponent is left unbounded: an array has fewer than \<open>2^32\<close> elements, so
  \<open>i + 1\<close> and \<open>totalRecords\<close> are doubles themselves and the quotient is at least
  \<open>2^-32\<close>, far from the subnormal range. \<^verbatim>\<open>Math.round\<close> gives the nearest
  integer, a half going upwards. The loop evaluates the expression only for
  \<open>i < totalRecords\<close>, so never with a zero divisor.
\<close>

text \<open>The nearest integer, a half going to the even one.\<close>

definition roundHalfEven :: "rat \<Rightarrow> int" where
  "roundHalfEven x =
     (let f = \<lfloor>x\<rfloor>; d = x - of_int f
      in if d < 1 / 2 then f else if 1 / 2 < d then f + 1 else if even f then f else f + 1)"

text \<open>For \<open>x > 0\<close>, the exponent \<open>k\<close> with \<open>2^k \<le> x < 2^(k+1)\<close>: the bit lengths of
  numerator and denominator give it up to one.\<close>

definition ilog2 :: "rat \<Rightarrow> int" where
  "ilog2 x =
     (case quotient_of x of
        (a, b) \<Rightarrow> (let d = bitlen a - bitlen b in if 2 powi d \<le> x then d else d - 1))"

definition toDouble :: "rat \<Rightarrow> rat" where
  "toDouble x =
     (if x = 0 then 0
      else (let e = ilog2 \<bar>x\<bar> - 52 in of_int (roundHalfEven (x / 2 powi e)) * 2 powi e))"

definition mathRound :: "rat \<Rightarrow> int" where
  "mathRound x = \<lfloor>x + 1 / 2\<rfloor>"

definition percent :: "nat \<Rightarrow> nat \<Rightarrow> int" where
  "percent i totalRecords =
     mathRound (toDouble (toDouble (of_nat (i + 1) / of_nat totalRecords) * 100))"

text \<open>
  The \<^verbatim>\<open>for\<close> loop over \<^verbatim>\<open>this._parsedData\<close>, which nothing assigns while the loop
  runs, so the list is an argument. The \<^verbatim>\<open>catch\<close> branch pushes a failure and gives
  the progress bar nothing.
\<close>

function processLoop ::
  "'s webAPI \<Rightarrow> ExcelRow list \<Rightarrow> nat \<Rightarrow> UpdateResult list \<Rightarrow> 's world
     \<Rightarrow> UpdateResult list \<times> 's world" where
  "processLoop api parsed i results w =
    (if i < length parsed then
       (case updateDataverseRecord api (parsed ! i) w of
          (Inr result, w1) \<Rightarrow>
            processLoop api parsed (i + 1) (results @ [result])
              (updateModalProgress (percent i (length parsed)) (pushResult result w1))
        | (Inl e, w1) \<Rightarrow>
            processLoop api parsed (i + 1)
              (results @ [\<lparr>success = False, recordId = ID (parsed ! i),
                            error = Some (orElse (Some (asString e)) ''Unknown error'')\<rparr>])
              (pushResult \<lparr>success = False, recordId = ID (parsed ! i),
                            error = Some (orElse (Some (asString e)) ''Unknown error'')\<rparr> w1))
     else (results, w))"
  by pat_completeness auto
termination
  by (relation "measure (\<lambda>(api, parsed, i, results, w). length parsed - i)") auto

declare processLoop.simps [simp del]

definition processDataverseUpdates :: "'s webAPI \<Rightarrow> 's world \<Rightarrow> 's world" where
  "processDataverseUpdates api w =
    (if length (thisParsedData w) = 0 then w
     else (case processLoop api (thisParsedData w) 0 [] w of
             (results, w1) \<Rightarrow> displayModalResults results w1))"

subsection \<open>uploadAndProcessFile (first copy, lines 123-207)\<close>

text \<open>
  The file input holds no file (\<open>None\<close>) or a file, given by what reading and decoding
  it yields: a thrown value or the rows of the chosen sheet. Every \<^verbatim>\<open>throw\<close> inside
  the \<^verbatim>\<open>try\<close> ends in the \<^verbatim>\<open>catch\<close>, which writes the status line only.
\<close>

definition uploadAndProcessFile ::
  "'s webAPI \<Rightarrow> (thrown + row list) option \<Rightarrow> 's world \<Rightarrow> 's world" where
  "uploadAndProcessFile api file w =
    (case file of
       None \<Rightarrow> w
     | Some decoded \<Rightarrow>
         (let w0 = updateModalProgress 0 w in
          case decoded of
            Inl e \<Rightarrow> w0
          | Inr jsonData \<Rightarrow>
              (let w1 = updateModalProgress 30 w0 in
               case parseExcelData jsonData of
                 Inl e \<Rightarrow> w1
               | Inr parsed \<Rightarrow>
                   (let w2 = w1\<lparr>thisParsedData := parsed\<rparr> in
                    if length parsed = 0 then w2
                    else processDataverseUpdates api (updateModalProgress 50 w2)))))"

subsection \<open>Notions the properties are stated with\<close>

text \<open>What one iteration of the first copy's loop pushes, as a total function.\<close>

definition rowRecord :: "row \<Rightarrow> ExcelRow option" where
  "rowRecord row = (case parseRow row of Inl e \<Rightarrow> None | Inr x \<Rightarrow> x)"

text \<open>
  Following the spec's words (4.1, steps 1, 2 and 5): a data row yields a record when it
  is array-shaped, has at least one column, and column 0 (absent and null counting as
  empty) stringifies and trims to a non-empty id.
\<close>

definition emitsRecord :: "row \<Rightarrow> bool" where
  "emitsRecord row =
     (case row of
        RArr r \<Rightarrow> 1 \<le> length r \<and> trim (toStringOrEmpty (cellAt r 0)) \<noteq> []
      | _ \<Rightarrow> False)"

text \<open>
  Following the spec's words (4.1, step 3): the response is column 2 if present and
  non-empty after trim, else column 1 if present and non-empty, else the empty string.
\<close>

definition specResponse :: "cell list \<Rightarrow> string" where
  "specResponse r =
     (if 2 < length r \<and> trim (toStringOrEmpty (cellAt r 2)) \<noteq> []
      then trim (toStringOrEmpty (cellAt r 2))
      else if 1 < length r \<and> trim (toStringOrEmpty (cellAt r 1)) \<noteq> []
      then trim (toStringOrEmpty (cellAt r 1))
      else [])"

text \<open>
  Rows on which the two copies of \<^verbatim>\<open>parseExcelData\<close> do the same: an entry that is
  not an array, or an array of at least 3 cells whose columns 0 and 2 are not blank and
  whose columns 0, 2 and 3 have no white space at either end.
\<close>

definition sameInBoth :: "row \<Rightarrow> bool" where
  "sameInBoth row =
     (case row of
        RArr r \<Rightarrow>
          3 \<le> length r \<and> nonBlank (cellAt r 0) \<and> nonBlank (cellAt r 2)
          \<and> trim (toStringOrEmpty (cellAt r 0)) = toStringOrEmpty (cellAt r 0)
          \<and> trim (toStringOrEmpty (cellAt r 2)) = toStringOrEmpty (cellAt r 2)
          \<and> trim (toStringOrEmpty (cellAt r 3)) = toStringOrEmpty (cellAt r 3)
      | _ \<Rightarrow> True)"

fun isUpdateCall :: "call \<Rightarrow> bool" where
  "isUpdateCall (UpdateRecord entityName ident payload) = True"
| "isUpdateCall (RetrieveMultipleRecords entityName query) = False"

fun startsWith :: "string \<Rightarrow> string \<Rightarrow> bool" where
  "startsWith [] s = True"
| "startsWith (p # ps) [] = False"
| "startsWith (p # ps) (c # cs) = (p = c \<and> startsWith ps cs)"

text \<open>The outcome categories of the spec (4.2 and 7).\<close>

datatype outcome = Updated | NotFound | AccessError | NoOpError | UpdateFailed

text \<open>
  The category of an outcome value, read off the \<^verbatim>\<open>success\<close> flag and the first
  words of the error detail the source writes: NotFound (after a probe that went
  through, or for zero entities), AccessError, NoOpError, UpdateFailed. A success
  carries no error detail; anything else is no outcome of the engine (\<open>None\<close>).
\<close>

definition classify :: "UpdateResult \<Rightarrow> outcome option" where
  "classify r =
     (case error r of
        None \<Rightarrow> if success r then Some Updated else None
      | Some m \<Rightarrow>
          if success r then None
          else if startsWith ''Record '' m then Some NotFound
          else if startsWith ''Entity access error: '' m then Some AccessError
          else if startsWith ''No data to update'' m then Some NoOpError
          else if startsWith ''Update failed: '' m then Some UpdateFailed
          else None)"

text \<open>
  Following the spec's words (4.2, payload phase): the payload holds only the fields
  whose source value is non-empty after trimming, the response first.
\<close>

definition specPayload :: "ExcelRow \<Rightarrow> (string \<times> string) list" where
  "specPayload record =
     (if trim (Response record) \<noteq> [] then [(''afsdc_response'', trim (Response record))] else [])
     @ (if trim (Notes record) \<noteq> [] then [(''afsdc_comments'', trim (Notes record))] else [])"

text \<open>
  Following the spec's words (4.2): a lookup that went through with zero entities is
  NotFound; otherwise the first entity is the match; an empty payload is NoOpError
  without a call to the store; otherwise the partial update is applied to the match,
  and its failure is UpdateFailed, its success Updated. The store is threaded through.
\<close>

definition specApply :: "'s webAPI \<Rightarrow> ExcelRow \<Rightarrow> entity list option \<Rightarrow> 's \<Rightarrow> outcome \<times> 's" where
  "specApply api record found s =
     (case found of
        None \<Rightarrow> (NotFound, s)
      | Some [] \<Rightarrow> (NotFound, s)
      | Some (match # others) \<Rightarrow>
          if specPayload record = [] then (NoOpError, s)
          else (case updateRecord api ''afsdc_questionresponseinstance''
                       (afsdc_questionresponseinstanceid match) (specPayload record) s of
                  (Inl e, s1) \<Rightarrow> (UpdateFailed, s1)
                | (Inr u, s1) \<Rightarrow> (Updated, s1)))"

text \<open>
  Following the spec's words (4.2, lookup phase): strategy A queries the primary
  collection by the record's key; strategy B, only when A's call failed, repeats the
  filter against the alternate collection name; strategy C, only when B's call failed
  too, probes the primary collection without a filter: NotFound when the probe goes
  through, AccessError when it fails.
\<close>

definition specReconcile :: "'s webAPI \<Rightarrow> ExcelRow \<Rightarrow> 's \<Rightarrow> outcome \<times> 's" where
  "specReconcile api record s =
     (case retrieveMultipleRecords api ''afsdc_questionresponseinstances''
             (filterQuery (trim (ID record))) s of
        (Inr found, s1) \<Rightarrow> specApply api record found s1
      | (Inl e1, s1) \<Rightarrow>
     (case retrieveMultipleRecords api ''afsdc_questionresponseinstance''
             (filterQuery (trim (ID record))) s1 of
        (Inr found, s2) \<Rightarrow> specApply api record found s2
      | (Inl e2, s2) \<Rightarrow>
     (case retrieveMultipleRecords api ''afsdc_questionresponseinstances'' probeQuery s2 of
        (Inr probe, s3) \<Rightarrow> (NotFound, s3)
      | (Inl e3, s3) \<Rightarrow> (AccessError, s3))))"

text \<open>
  Following the spec's words (4.2, failure isolation): the records are reconciled
  strictly in order, each against the store as the ones before it left it, whatever
  their outcomes were.
\<close>

fun specRun :: "'s webAPI \<Rightarrow> ExcelRow list \<Rightarrow> 's \<Rightarrow> outcome list \<times> 's" where
  "specRun api [] s = ([], s)"
| "specRun api (record # records) s =
     (case specReconcile api record s of
        (out, s1) \<Rightarrow> (case specRun api records s1 of (outs, s2) \<Rightarrow> (out # outs, s2)))"

subsection \<open>A small remote store and sheet to run the functions on\<close>

text \<open>
  The plural collection name is not known to this store, so every query against it is
  rejected; the singular one holds one entity, named A1. Updates always succeed and
  are counted.
\<close>

definition demoApi :: "nat webAPI" where
  "demoApi =
     \<lparr>retrieveMultipleRecords = (\<lambda>entityName query s.
         if entityName = ''afsdc_questionresponseinstances''
         then (Inl (Error ''Resource not found for the segment''), s)
         else if query = filterQuery ''A1''
         then (Inr (Some [\<lparr>afsdc_questionresponseinstanceid = ''guid-1'',
                            afsdc_name = ''A1''\<rparr>]), s)
         else (Inr (Some []), s)),
       updateRecord = (\<lambda>entityName ident payload s. (Inr (), Suc s))\<rparr>"

definition demoWorld :: "nat world" where
  "demoWorld =
     \<lparr>remote = 0, calls = [], progressLog = [], thisParsedData = [], displayed = None,
       timeline = []\<rparr>"

definition demoGrid :: "row list" where
  "demoGrid =
     [RArr [CStr ''ID'', CStr ''Question'', CStr ''Response'', CStr ''Notes''],
      RArr [CStr ''B7'', CStr ''q1'', CStr ''Yes'', CStr ''ok''],
      RArr [CStr ''A1'', CStr ''q2'', CStr ''No'', CStr ''''],
      RArr [CStr ''A1'', CStr ''q3'', CStr '''', CStr '''']]"

definition demoRows :: "ExcelRow list" where
  "demoRows =
     [\<lparr>ID = ''B7'', Response = ''Yes'', Notes = ''ok''\<rparr>,
      \<lparr>ID = ''A1'', Response = ''No'', Notes = []\<rparr>,
      \<lparr>ID = ''A1'', Response = ''q3'', Notes = []\<rparr>]"

text \<open>The control after a sheet with these three records was parsed.\<close>

definition demoLoaded :: "nat world" where
  "demoLoaded = demoWorld\<lparr>thisParsedData := demoRows\<rparr>"

text \<open>The grid of the spec's end-to-end example, followed by entries that are dropped.\<close>

definition specGrid :: "row list" where
  "specGrid =
     [RArr [CStr ''ID'', CStr ''Resp'', CStr ''Notes''],
      RArr [CStr ''R1'', CStr ''Yes'', CStr ''ok''],
      RArr [CStr ''R2'', CStr '''', CStr ''comment''],
      RArr [CStr '''', CStr ''ignored'', CStr ''ignored''],
      RNull,
      RArr [],
      RArr [CStr ''  '', CStr ''x''],
      RArr [CNum 42]]"

section \<open>Properties\<close>

subsection \<open>The extractor never throws on a row\<close>

lemma trim_Nil: "trim [] = []"
  by (simp add: trim_def)

lemma showNat_not_Nil: "showNat n \<noteq> []"
  by (subst showNat.simps) simp

lemma toStringTrim_nonBlank: "nonBlank c \<Longrightarrow> toStringTrim c = Inr (trim (toStringOrEmpty c))"
  by (cases c) (simp_all add: nonBlank_def toStringTrim_def)

lemma blank_text: "\<not> nonBlank c \<Longrightarrow> toStringOrEmpty c = []"
  by (cases c) (simp_all add: nonBlank_def)

lemma nonBlank_text: "nonBlank c \<Longrightarrow> toStringOrEmpty c \<noteq> []"
  by (cases c) (simp_all add: nonBlank_def showInt_def showNat_not_Nil)

lemma nonBlank_cellAt: "nonBlank (cellAt r i) \<Longrightarrow> i < length r"
  by (simp add: nonBlank_def cellAt_def split: if_splits)

text \<open>
  The closed form of the loop body. The second alternative for the notes (column 2
  when the response is empty) can only ever deliver the empty string: it needs a
  non-blank column 2, which the response has then taken.
\<close>

lemma parseCells_eq:
  "parseCells r =
     Inr (if trim (toStringOrEmpty (cellAt r 0)) \<noteq> []
          then Some \<lparr>ID = trim (toStringOrEmpty (cellAt r 0)),
                     Response = (if nonBlank (cellAt r 2) then trim (toStringOrEmpty (cellAt r 2))
                                 else if nonBlank (cellAt r 1) then trim (toStringOrEmpty (cellAt r 1))
                                 else []),
                     Notes = (if nonBlank (cellAt r 3) then trim (toStringOrEmpty (cellAt r 3))
                              else [])\<rparr>
          else None)"
proof -
  have len: "\<And>i. nonBlank (cellAt r i) \<Longrightarrow> i < length r"
    by (rule nonBlank_cellAt)
  have blank: "\<And>i. \<not> nonBlank (cellAt r i) \<Longrightarrow> trim (toStringOrEmpty (cellAt r i)) = []"
    by (simp add: blank_text trim_Nil)
  show ?thesis
    unfolding parseCells_def
    by (cases "nonBlank (cellAt r 0)"; cases "nonBlank (cellAt r 1)";
        cases "nonBlank (cellAt r 2)"; cases "nonBlank (cellAt r 3)")
       (simp_all add: toStringTrim_nonBlank len blank)
qed

lemma parseRow_total: "parseRow row = Inr (rowRecord row)"
  by (cases row) (simp_all add: rowRecord_def parseCells_eq)

lemma rowRecord_emits: "(rowRecord row \<noteq> None) = emitsRecord row"
  by (cases row) (simp_all add: rowRecord_def emitsRecord_def parseCells_eq)

lemma rowRecord_None: "(rowRecord row = None) = (\<not> emitsRecord row)"
  using rowRecord_emits[of row] by blast

subsection \<open>The loops as list functions\<close>

lemma parseLoop_eq:
  "parseLoop jsonData i acc = Inr (acc @ List.map_filter rowRecord (drop i jsonData))"
proof (induction jsonData i acc rule: parseLoop.induct)
  case (1 jsonData i parsedData)
  show ?case
  proof (cases "i < length jsonData")
    case True
    then have d: "drop i jsonData = jsonData ! i # drop (i + 1) jsonData"
      by (simp add: Cons_nth_drop_Suc)
    show ?thesis
    proof (cases "rowRecord (jsonData ! i)")
      case None
      with True 1(1)[OF True parseRow_total] show ?thesis
        by (subst parseLoop.simps) (simp add: parseRow_total d List.map_filter_simps)
    next
      case (Some rec)
      with True 1(2)[OF True parseRow_total] show ?thesis
        by (subst parseLoop.simps) (simp add: parseRow_total d List.map_filter_simps)
    qed
  next
    case False
    then show ?thesis
      by (subst parseLoop.simps) (simp add: List.map_filter_simps)
  qed
qed

lemma parseExcelData_eq:
  "2 \<le> length jsonData \<Longrightarrow>
     parseExcelData jsonData = Inr (List.map_filter rowRecord (tl jsonData))"
  by (simp add: parseExcelData_def parseLoop_eq drop_Suc)

lemma parseLoop2_eq:
  "parseLoop2 jsonData i acc = acc @ List.map_filter parseRow2 (drop i jsonData)"
proof (induction jsonData i acc rule: parseLoop2.induct)
  case (1 jsonData i parsedData)
  show ?case
  proof (cases "i < length jsonData")
    case True
    then have d: "drop i jsonData = jsonData ! i # drop (i + 1) jsonData"
      by (simp add: Cons_nth_drop_Suc)
    show ?thesis
    proof (cases "parseRow2 (jsonData ! i)")
      case None
      with True 1(1)[OF True] show ?thesis
        by (subst parseLoop2.simps) (simp add: d List.map_filter_simps)
    next
      case (Some rec)
      with True 1(2)[OF True] show ?thesis
        by (subst parseLoop2.simps) (simp add: d List.map_filter_simps)
    qed
  next
    case False
    then show ?thesis
      by (subst parseLoop2.simps) (simp add: List.map_filter_simps)
  qed
qed

lemma parseExcelData2_eq:
  "2 \<le> length jsonData \<Longrightarrow>
     parseExcelData2 jsonData = Inr (List.map_filter parseRow2 (tl jsonData))"
  by (simp add: parseExcelData2_def parseLoop2_eq drop_Suc)

lemma map_filter_as_filter:
  "map Some (List.map_filter f xs) = map f (filter (\<lambda>x. f x \<noteq> None) xs)"
  by (induction xs) (auto simp: List.map_filter_simps split: option.splits)

lemma map_filter_cong_set:
  "(\<And>x. x \<in> set xs \<Longrightarrow> f x = g x) \<Longrightarrow> List.map_filter f xs = List.map_filter g xs"
  by (induction xs) (auto simp: List.map_filter_simps split: option.splits)

lemma sameInBoth_rows: "sameInBoth row \<Longrightarrow> rowRecord row = parseRow2 row"
proof (cases row)
  case (RArr r)
  assume "sameInBoth row"
  with RArr have h: "3 \<le> length r" "nonBlank (cellAt r 0)" "nonBlank (cellAt r 2)"
    "trim (toStringOrEmpty (cellAt r 0)) = toStringOrEmpty (cellAt r 0)"
    "trim (toStringOrEmpty (cellAt r 2)) = toStringOrEmpty (cellAt r 2)"
    "trim (toStringOrEmpty (cellAt r 3)) = toStringOrEmpty (cellAt r 3)"
    by (simp_all add: sameInBoth_def)
  show ?thesis
    using RArr h by (simp add: rowRecord_def parseCells_eq nonBlank_text blank_text)
qed (simp_all add: rowRecord_def)

subsection \<open>What a call to the remote store leaves alone\<close>

lemma callRetrieve_frame:
  "callRetrieve api n q w = (res, w1) \<Longrightarrow>
     progressLog w1 = progressLog w \<and> thisParsedData w1 = thisParsedData w
     \<and> displayed w1 = displayed w \<and> calls w1 = calls w @ [RetrieveMultipleRecords n q]"
  by (auto simp: callRetrieve_def split: prod.splits)

lemma callUpdate_frame:
  "callUpdate api n i p w = (res, w1) \<Longrightarrow>
     progressLog w1 = progressLog w \<and> thisParsedData w1 = thisParsedData w
     \<and> displayed w1 = displayed w"
  by (auto simp: callUpdate_def split: prod.splits)

lemma lookupRecord_frame:
  assumes "lookupRecord api row cleanId w = (res, w1)"
  shows "progressLog w1 = progressLog w
         \<and> filter isUpdateCall (calls w1) = filter isUpdateCall (calls w)"
  using assms
  by (auto simp: lookupRecord_def split: prod.splits sum.splits dest!: callRetrieve_frame)


lemma updateData_specPayload: "updateData row = specPayload row"
  by (auto simp: updateData_def specPayload_def trim_Nil)

lemma lookupRecord_cases:
  "lookupRecord api row cleanId w =
     (case retrieveMultipleRecords api ''afsdc_questionresponseinstances'' (filterQuery cleanId)
             (remote w) of
        (Inr found, s1) \<Rightarrow>
          (Inr found,
           w\<lparr>remote := s1,
             calls := calls w @ [RetrieveMultipleRecords ''afsdc_questionresponseinstances''
                                   (filterQuery cleanId)]\<rparr>)
      | (Inl e1, s1) \<Rightarrow>
     (case retrieveMultipleRecords api ''afsdc_questionresponseinstance'' (filterQuery cleanId) s1 of
        (Inr found, s2) \<Rightarrow>
          (Inr found,
           w\<lparr>remote := s2,
             calls := calls w @ [RetrieveMultipleRecords ''afsdc_questionresponseinstances''
                                   (filterQuery cleanId),
                                 RetrieveMultipleRecords ''afsdc_questionresponseinstance''
                                   (filterQuery cleanId)]\<rparr>)
      | (Inl e2, s2) \<Rightarrow>
     (case retrieveMultipleRecords api ''afsdc_questionresponseinstances'' probeQuery s2 of
        (res3, s3) \<Rightarrow>
          (Inl \<lparr>success = False, recordId = ID row,
                error = Some (case res3 of
                                Inr probe \<Rightarrow> ''Record '' @ quote @ cleanId @ quote
                                               @ '' not found in entity''
                              | Inl e3 \<Rightarrow> ''Entity access error: ''
                                             @ orElse (message e3) ''Unknown error'')\<rparr>,
           w\<lparr>remote := s3,
             calls := calls w @ [RetrieveMultipleRecords ''afsdc_questionresponseinstances''
                                   (filterQuery cleanId),
                                 RetrieveMultipleRecords ''afsdc_questionresponseinstance''
                                   (filterQuery cleanId),
                                 RetrieveMultipleRecords ''afsdc_questionresponseinstances''
                                   probeQuery]\<rparr>))))"
  by (simp add: lookupRecord_def callRetrieve_def split: prod.splits sum.splits)

lemma classify_simps:
  "classify \<lparr>success = True, recordId = i, error = None\<rparr> = Some Updated"
  "classify \<lparr>success = False, recordId = i, error = Some (''Record '' @ m)\<rparr> = Some NotFound"
  "classify \<lparr>success = False, recordId = i, error = Some (''Entity access error: '' @ m)\<rparr>
     = Some AccessError"
  "classify \<lparr>success = False, recordId = i,
             error = Some ''No data to update (Response and Notes are empty)''\<rparr> = Some NoOpError"
  "classify \<lparr>success = False, recordId = i, error = Some (''Update failed: '' @ m)\<rparr>
     = Some UpdateFailed"
  by (simp_all add: classify_def)

lemma updateDataverseRecord_returned:
  assumes "lookupRecord api row (trim (ID row)) w = (Inl r, w1)"
  shows "updateDataverseRecord api row w = (Inr r, w1)"
  using assms by (simp add: updateDataverseRecord_def tryUpdate_def Let_def)

lemma updateDataverseRecord_resolved:
  assumes l: "lookupRecord api row (trim (ID row)) w = (Inr found, w1)"
  shows "\<exists>r w2. updateDataverseRecord api row w = (Inr r, w2) \<and> recordId r = ID row
       \<and> classify r = Some (fst (specApply api row found (remote w1)))
       \<and> success r = (fst (specApply api row found (remote w1)) = Updated)
       \<and> remote w2 = snd (specApply api row found (remote w1))
       \<and> progressLog w2 = progressLog w1 \<and> timeline w2 = timeline w1
       \<and> thisParsedData w2 = thisParsedData w1 \<and> displayed w2 = displayed w1"
proof -
  consider (none) "found = None" | (zero) "found = Some []"
    | (noop) match others where "found = Some (match # others)" "specPayload row = []"
    | (send) match others where "found = Some (match # others)" "specPayload row \<noteq> []"
    by (cases found; cases "the found"; cases "specPayload row = []") auto
  then show ?thesis
  proof cases
    case none
    then show ?thesis
      using classify_simps(2)[of "ID row" "''not found: '' @ quote @ trim (ID row) @ quote"]
      by (simp add: updateDataverseRecord_def tryUpdate_def Let_def l specApply_def)
  next
    case zero
    then show ?thesis
      using classify_simps(2)[of "ID row" "''not found: '' @ quote @ trim (ID row) @ quote"]
      by (simp add: updateDataverseRecord_def tryUpdate_def Let_def l specApply_def)
  next
    case noop
    then show ?thesis
      by (simp add: updateDataverseRecord_def tryUpdate_def Let_def l specApply_def
            updateData_specPayload classify_simps)
  next
    case send
    obtain res s2 where u: "updateRecord api ''afsdc_questionresponseinstance''
        (afsdc_questionresponseinstanceid match) (specPayload row) (remote w1) = (res, s2)"
      by (cases "updateRecord api ''afsdc_questionresponseinstance''
        (afsdc_questionresponseinstanceid match) (specPayload row) (remote w1)")
    show ?thesis
    proof (cases res)
      case (Inl e)
      then show ?thesis
        using send u
          classify_simps(5)[of "ID row" "orElse (message e) (orElse (Some (asString e)) ''Unknown error'')"]
        by (simp add: updateDataverseRecord_def tryUpdate_def Let_def l specApply_def
              updateData_specPayload callUpdate_def)
    next
      case (Inr u')
      then show ?thesis
        using send u
        by (simp add: updateDataverseRecord_def tryUpdate_def Let_def l specApply_def
              updateData_specPayload callUpdate_def classify_simps)
    qed
  qed
qed

lemma updateDataverseRecord_spec:
  "\<exists>r w1. updateDataverseRecord api row w = (Inr r, w1) \<and> recordId r = ID row
       \<and> classify r = Some (fst (specReconcile api row (remote w)))
       \<and> success r = (fst (specReconcile api row (remote w)) = Updated)
       \<and> remote w1 = snd (specReconcile api row (remote w))
       \<and> progressLog w1 = progressLog w \<and> timeline w1 = timeline w
       \<and> thisParsedData w1 = thisParsedData w \<and> displayed w1 = displayed w"
proof -
  let ?q = "filterQuery (trim (ID row))"
  obtain res1 s1 where c1:
    "retrieveMultipleRecords api ''afsdc_questionresponseinstances'' ?q (remote w) = (res1, s1)"
    by (cases "retrieveMultipleRecords api ''afsdc_questionresponseinstances'' ?q (remote w)")
  obtain res2 s2 where c2:
    "retrieveMultipleRecords api ''afsdc_questionresponseinstance'' ?q s1 = (res2, s2)"
    by (cases "retrieveMultipleRecords api ''afsdc_questionresponseinstance'' ?q s1")
  obtain res3 s3 where c3:
    "retrieveMultipleRecords api ''afsdc_questionresponseinstances'' probeQuery s2 = (res3, s3)"
    by (cases "retrieveMultipleRecords api ''afsdc_questionresponseinstances'' probeQuery s2")
  show ?thesis
  proof (cases res1)
    case (Inr found)
    have "\<exists>w1. lookupRecord api row (trim (ID row)) w = (Inr found, w1) \<and> remote w1 = s1
            \<and> progressLog w1 = progressLog w \<and> timeline w1 = timeline w
            \<and> thisParsedData w1 = thisParsedData w \<and> displayed w1 = displayed w"
      using c1 Inr by (simp add: lookupRecord_cases)
    then obtain w1 where l: "lookupRecord api row (trim (ID row)) w = (Inr found, w1)"
      and f: "remote w1 = s1" "progressLog w1 = progressLog w" "timeline w1 = timeline w"
        "thisParsedData w1 = thisParsedData w" "displayed w1 = displayed w"
      by (elim exE conjE)
    show ?thesis
      using updateDataverseRecord_resolved[OF l] c1 Inr
      by (simp add: specReconcile_def f)
  next
    case e1: (Inl e1)
    show ?thesis
    proof (cases res2)
      case (Inr found)
      have "\<exists>w1. lookupRecord api row (trim (ID row)) w = (Inr found, w1) \<and> remote w1 = s2
            \<and> progressLog w1 = progressLog w \<and> timeline w1 = timeline w
            \<and> thisParsedData w1 = thisParsedData w \<and> displayed w1 = displayed w"
        using c1 c2 e1 Inr by (simp add: lookupRecord_cases)
      then obtain w1 where l: "lookupRecord api row (trim (ID row)) w = (Inr found, w1)"
        and f: "remote w1 = s2" "progressLog w1 = progressLog w" "timeline w1 = timeline w"
          "thisParsedData w1 = thisParsedData w" "displayed w1 = displayed w"
        by (elim exE conjE)
      show ?thesis
        using updateDataverseRecord_resolved[OF l] c1 c2 e1 Inr
        by (simp add: specReconcile_def f)
    next
      case e2: (Inl e2)
      have "\<exists>r w1. lookupRecord api row (trim (ID row)) w = (Inl r, w1) \<and> remote w1 = s3
            \<and> progressLog w1 = progressLog w \<and> timeline w1 = timeline w
            \<and> thisParsedData w1 = thisParsedData w \<and> displayed w1 = displayed w
            \<and> recordId r = ID row \<and> \<not> success r
            \<and> classify r = Some (case res3 of Inr probe \<Rightarrow> NotFound | Inl e3 \<Rightarrow> AccessError)"
        using c1 c2 c3 e1 e2
        by (cases res3) (simp_all add: lookupRecord_cases classify_def)
      then obtain r w1 where l: "lookupRecord api row (trim (ID row)) w = (Inl r, w1)"
        and f: "remote w1 = s3" "progressLog w1 = progressLog w" "timeline w1 = timeline w"
          "thisParsedData w1 = thisParsedData w" "displayed w1 = displayed w"
          "recordId r = ID row" "\<not> success r"
          "classify r = Some (case res3 of Inr probe \<Rightarrow> NotFound | Inl e3 \<Rightarrow> AccessError)"
        by (elim exE conjE)
      have "updateDataverseRecord api row w = (Inr r, w1)"
        using l by (rule updateDataverseRecord_returned)
      then show ?thesis
        using c1 c2 c3 e1 e2 f
        by (cases res3) (simp_all add: specReconcile_def)
    qed
  qed
qed

lemma processLoop_step:
  assumes "i < length parsed"
  shows "\<exists>r w1. recordId r = ID (parsed ! i)
           \<and> classify r = Some (fst (specReconcile api (parsed ! i) (remote w)))
           \<and> success r = (fst (specReconcile api (parsed ! i) (remote w)) = Updated)
           \<and> remote w1 = snd (specReconcile api (parsed ! i) (remote w))
           \<and> progressLog w1 = progressLog w \<and> timeline w1 = timeline w
           \<and> thisParsedData w1 = thisParsedData w \<and> displayed w1 = displayed w
           \<and> processLoop api parsed i results w =
               processLoop api parsed (i + 1) (results @ [r])
                 (updateModalProgress (percent i (length parsed)) (pushResult r w1))"
proof -
  from updateDataverseRecord_spec[of api "parsed ! i" w]
  obtain r w1 where u: "updateDataverseRecord api (parsed ! i) w = (Inr r, w1)
       \<and> recordId r = ID (parsed ! i)
       \<and> classify r = Some (fst (specReconcile api (parsed ! i) (remote w)))
       \<and> success r = (fst (specReconcile api (parsed ! i) (remote w)) = Updated)
       \<and> remote w1 = snd (specReconcile api (parsed ! i) (remote w))
       \<and> progressLog w1 = progressLog w \<and> timeline w1 = timeline w
       \<and> thisParsedData w1 = thisParsedData w \<and> displayed w1 = displayed w"
    by (elim exE)
  have "processLoop api parsed i results w =
          processLoop api parsed (i + 1) (results @ [r])
            (updateModalProgress (percent i (length parsed)) (pushResult r w1))"
    using assms u by (subst processLoop.simps) simp
  with u show ?thesis
    by (intro exI[of _ r] exI[of _ w1]) simp
qed

lemma processLoop_done:
  "\<not> i < length parsed \<Longrightarrow> processLoop api parsed i results w = (results, w)"
  by (subst processLoop.simps) simp

text \<open>The loop from index \<open>i\<close> on, against the spec's run over the records left.\<close>

lemma processLoop_run:
  "\<exists>new. fst (processLoop api parsed i results w) = results @ new
     \<and> length new = length parsed - i
     \<and> map recordId new = map ID (drop i parsed)
     \<and> map classify new = map Some (fst (specRun api (drop i parsed) (remote w)))
     \<and> map success new = map (\<lambda>c. c = Updated) (fst (specRun api (drop i parsed) (remote w)))
     \<and> remote (snd (processLoop api parsed i results w))
         = snd (specRun api (drop i parsed) (remote w))
     \<and> progressLog (snd (processLoop api parsed i results w))
         = progressLog w @ map (\<lambda>k. percent k (length parsed)) [i..<length parsed]
     \<and> timeline (snd (processLoop api parsed i results w))
         = timeline w
           @ concat (map (\<lambda>(r, p). [RecordDone r, ProgressSet p])
                       (zip new (map (\<lambda>k. percent k (length parsed)) [i..<length parsed])))
     \<and> thisParsedData (snd (processLoop api parsed i results w)) = thisParsedData w
     \<and> displayed (snd (processLoop api parsed i results w)) = displayed w"
proof (induction "length parsed - i" arbitrary: i results w)
  case 0
  then show ?case
    by (simp add: processLoop_done)
next
  case (Suc n)
  then have lt: "i < length parsed"
    by simp
  from processLoop_step[OF lt, where api=api and w=w and results=results]
  obtain r w1 where
    st: "recordId r = ID (parsed ! i)
           \<and> classify r = Some (fst (specReconcile api (parsed ! i) (remote w)))
           \<and> success r = (fst (specReconcile api (parsed ! i) (remote w)) = Updated)
           \<and> remote w1 = snd (specReconcile api (parsed ! i) (remote w))
           \<and> progressLog w1 = progressLog w \<and> timeline w1 = timeline w
           \<and> thisParsedData w1 = thisParsedData w \<and> displayed w1 = displayed w
           \<and> processLoop api parsed i results w =
               processLoop api parsed (i + 1) (results @ [r])
                 (updateModalProgress (percent i (length parsed)) (pushResult r w1))"
    by (elim exE)
  let ?w2 = "updateModalProgress (percent i (length parsed)) (pushResult r w1)"
  from st have eq: "processLoop api parsed i results w
                      = processLoop api parsed (i + 1) (results @ [r]) ?w2"
    by simp
  have n: "n = length parsed - (i + 1)"
    using Suc(2) by simp
  from Suc(1)[OF n, of "results @ [r]" ?w2]
  obtain new where ih:
    "fst (processLoop api parsed (i + 1) (results @ [r]) ?w2) = (results @ [r]) @ new
     \<and> length new = length parsed - (i + 1)
     \<and> map recordId new = map ID (drop (i + 1) parsed)
     \<and> map classify new = map Some (fst (specRun api (drop (i + 1) parsed) (remote ?w2)))
     \<and> map success new
         = map (\<lambda>c. c = Updated) (fst (specRun api (drop (i + 1) parsed) (remote ?w2)))
     \<and> remote (snd (processLoop api parsed (i + 1) (results @ [r]) ?w2))
         = snd (specRun api (drop (i + 1) parsed) (remote ?w2))
     \<and> progressLog (snd (processLoop api parsed (i + 1) (results @ [r]) ?w2))
         = progressLog ?w2 @ map (\<lambda>k. percent k (length parsed)) [i + 1..<length parsed]
     \<and> timeline (snd (processLoop api parsed (i + 1) (results @ [r]) ?w2))
         = timeline ?w2
           @ concat (map (\<lambda>(r, p). [RecordDone r, ProgressSet p])
                       (zip new (map (\<lambda>k. percent k (length parsed)) [i + 1..<length parsed])))
     \<and> thisParsedData (snd (processLoop api parsed (i + 1) (results @ [r]) ?w2))
         = thisParsedData ?w2
     \<and> displayed (snd (processLoop api parsed (i + 1) (results @ [r]) ?w2)) = displayed ?w2"
    by (elim exE)
  have w2: "remote ?w2 = snd (specReconcile api (parsed ! i) (remote w))"
    "progressLog ?w2 = progressLog w @ [percent i (length parsed)]"
    "timeline ?w2 = timeline w @ [RecordDone r, ProgressSet (percent i (length parsed))]"
    "thisParsedData ?w2 = thisParsedData w" "displayed ?w2 = displayed w"
    using st by (simp_all add: updateModalProgress_def pushResult_def)
  have d: "drop i parsed = parsed ! i # drop (i + 1) parsed"
    using lt by (simp add: Cons_nth_drop_Suc)
  have u: "[i..<length parsed] = i # [i + 1..<length parsed]"
    using lt by (simp add: upt_conv_Cons)
  show ?case
    unfolding eq
    using ih st lt
    by (intro exI[of _ "r # new"]) (simp add: w2 d u case_prod_beta)
qed

lemma processDataverseUpdates_final:
  assumes "thisParsedData w \<noteq> []"
  shows "processDataverseUpdates api w
           = displayModalResults (fst (processLoop api (thisParsedData w) 0 [] w))
               (snd (processLoop api (thisParsedData w) 0 [] w))"
  using assms by (simp add: processDataverseUpdates_def case_prod_beta)

lemma processDataverseUpdates_progress:
  "progressLog (processDataverseUpdates api w)
     = progressLog w
       @ map (\<lambda>k. percent k (length (thisParsedData w))) [0..<length (thisParsedData w)]"
proof (cases "thisParsedData w = []")
  case True
  then show ?thesis
    by (simp add: processDataverseUpdates_def)
next
  case False
  from processLoop_run[of api "thisParsedData w" 0 "[]" w]
  have "progressLog (snd (processLoop api (thisParsedData w) 0 [] w))
     = progressLog w
       @ map (\<lambda>k. percent k (length (thisParsedData w))) [0..<length (thisParsedData w)]"
    by (elim exE conjE)
  then show ?thesis
    using False by (simp add: processDataverseUpdates_final displayModalResults_def)
qed

subsection \<open>The percentage\<close>

lemma roundHalfEven_of_int: "roundHalfEven (of_int n) = n"
  by (simp add: roundHalfEven_def)

lemma roundHalfEven_mono:
  assumes "x \<le> y"
  shows "roundHalfEven x \<le> roundHalfEven y"
proof (cases "\<lfloor>x\<rfloor> = \<lfloor>y\<rfloor>")
  case True
  then show ?thesis
    using assms unfolding roundHalfEven_def Let_def by auto
next
  case False
  with assms have "\<lfloor>x\<rfloor> + 1 \<le> \<lfloor>y\<rfloor>"
    using floor_mono[OF assms] by linarith
  moreover have "roundHalfEven x \<le> \<lfloor>x\<rfloor> + 1"
    unfolding roundHalfEven_def Let_def by auto
  moreover have "\<lfloor>y\<rfloor> \<le> roundHalfEven y"
    unfolding roundHalfEven_def Let_def by auto
  ultimately show ?thesis
    by linarith
qed

lemma ilog2_bounds:
  assumes "0 < x"
  shows "2 powi (ilog2 x) \<le> x \<and> x < 2 powi (ilog2 x + 1)"
proof -
  obtain a b where q: "quotient_of x = (a, b)"
    by (cases "quotient_of x")
  have b: "0 < b"
    using q by (rule quotient_of_denom_pos)
  have x: "x = of_int a / of_int b"
    using q by (rule quotient_of_div)
  have a: "0 < a"
    using assms b x by (simp add: zero_less_divide_iff)
  let ?la = "bitlen a" and ?lb = "bitlen b"
  have la: "1 \<le> ?la" and lb: "1 \<le> ?lb"
    using a b bitlen_eq_zero_iff[of a] bitlen_eq_zero_iff[of b]
      bitlen_nonneg[of a] bitlen_nonneg[of b]
    by linarith+
  have pw: "(2::rat) powi k = of_int (2 ^ nat k)" if "0 \<le> k" for k
    using that by (simp add: power_int_def)
  have pa: "(2::rat) powi (?la - 1) \<le> of_int a" "(of_int a :: rat) < 2 powi ?la"
    using bitlen_bounds[OF a] la by (simp_all only: pw of_int_le_iff of_int_less_iff)
  have pb: "(2::rat) powi (?lb - 1) \<le> of_int b" "(of_int b :: rat) < 2 powi ?lb"
    using bitlen_bounds[OF b] lb by (simp_all only: pw of_int_le_iff of_int_less_iff)
  have pos: "(0::rat) < 2 powi k" for k
    by (simp add: zero_less_power_int)
  have "x < 2 powi ?la / 2 powi (?lb - 1)"
    unfolding x using a pa(2) pb(1) pos[of "?lb - 1"]
    by (intro frac_less) simp_all
  then have up: "x < 2 powi (?la - ?lb + 1)"
    by (simp add: power_int_diff[symmetric] algebra_simps)
  have "2 powi (?la - 1) / 2 powi ?lb \<le> x"
    unfolding x using pa(1) pb(2) pos[of "?la - 1"] a b
    by (intro frac_le) simp_all
  then have lo: "2 powi (?la - ?lb - 1) \<le> x"
    by (simp add: power_int_diff[symmetric] algebra_simps)
  show ?thesis
    using up lo q by (auto simp: ilog2_def Let_def not_le algebra_simps)
qed

lemma ilog2_mono:
  assumes "0 < x" "x \<le> y"
  shows "ilog2 x \<le> ilog2 y"
proof (rule ccontr)
  assume "\<not> ilog2 x \<le> ilog2 y"
  then have "ilog2 y + 1 \<le> ilog2 x"
    by simp
  then have "(2::rat) powi (ilog2 y + 1) \<le> 2 powi (ilog2 x)"
    by (simp add: power_int_increasing)
  moreover have "(2::rat) powi (ilog2 x) < 2 powi (ilog2 y + 1)"
    using ilog2_bounds[of x] ilog2_bounds[of y] assms by linarith
  ultimately show False
    by linarith
qed

text \<open>A positive number and its double lie in the same binade, ends included.\<close>

lemma toDouble_pos_bounds:
  assumes "0 < x"
  shows "2 powi (ilog2 x) \<le> toDouble x \<and> toDouble x \<le> 2 powi (ilog2 x + 1)"
proof -
  let ?e = "ilog2 x - 52"
  have pos: "(0::rat) < 2 powi k" for k
    by (simp add: zero_less_power_int)
  have "(2::rat) powi (52 + ?e) = 2 powi 52 * 2 powi ?e"
    "(2::rat) powi (53 + ?e) = 2 powi 53 * 2 powi ?e"
    by (rule power_int_add; simp)+
  then have s: "(2::rat) powi (ilog2 x) = 2 powi 52 * 2 powi ?e"
    "(2::rat) powi (ilog2 x + 1) = 2 powi 53 * 2 powi ?e"
    by (simp_all add: algebra_simps)
  have lo: "(2::rat) powi 52 \<le> x / 2 powi ?e"
    using ilog2_bounds[OF assms] pos[of ?e] unfolding s by (simp add: pos_le_divide_eq)
  have hi: "x / 2 powi ?e \<le> (2::rat) powi 53"
    using ilog2_bounds[OF assms] pos[of ?e] unfolding s by (simp add: pos_divide_le_eq)
  have i52: "(2::rat) powi 52 = of_int (2 ^ 52)" and i53: "(2::rat) powi 53 = of_int (2 ^ 53)"
    by (simp_all add: power_int_def)
  have "2 ^ 52 \<le> roundHalfEven (x / 2 powi ?e)"
    using roundHalfEven_mono[OF lo[unfolded i52]] by (simp only: roundHalfEven_of_int)
  moreover have "roundHalfEven (x / 2 powi ?e) \<le> 2 ^ 53"
    using roundHalfEven_mono[OF hi[unfolded i53]] by (simp only: roundHalfEven_of_int)
  ultimately have "(2::rat) powi 52 \<le> of_int (roundHalfEven (x / 2 powi ?e))"
    "of_int (roundHalfEven (x / 2 powi ?e)) \<le> (2::rat) powi 53"
    unfolding i52 i53 by (simp_all only: of_int_le_iff)
  then have "2 powi 52 * 2 powi ?e \<le> toDouble x \<and> toDouble x \<le> 2 powi 53 * 2 powi ?e"
    using assms pos[of ?e] by (simp add: toDouble_def Let_def)
  then show ?thesis
    unfolding s .
qed

lemma toDouble_pos_mono:
  assumes "0 < x" "x \<le> y"
  shows "toDouble x \<le> toDouble y"
proof (cases "ilog2 x = ilog2 y")
  case True
  let ?e = "ilog2 y - 52"
  have pos: "(0::rat) < 2 powi ?e"
    by (simp add: zero_less_power_int)
  have "x / 2 powi ?e \<le> y / 2 powi ?e"
    using assms pos by (simp add: divide_right_mono)
  then have "roundHalfEven (x / 2 powi ?e) \<le> roundHalfEven (y / 2 powi ?e)"
    by (rule roundHalfEven_mono)
  then show ?thesis
    using assms pos True by (simp add: toDouble_def Let_def)
next
  case False
  then have "ilog2 x + 1 \<le> ilog2 y"
    using ilog2_mono[OF assms] by simp
  then have "(2::rat) powi (ilog2 x + 1) \<le> 2 powi (ilog2 y)"
    by (simp add: power_int_increasing)
  then show ?thesis
    using toDouble_pos_bounds[of x] toDouble_pos_bounds[of y] assms by linarith
qed

lemma toDouble_nonneg: "0 \<le> x \<Longrightarrow> 0 \<le> toDouble x"
proof (cases "x = 0")
  case True
  then show ?thesis
    by (simp add: toDouble_def)
next
  case False
  assume "0 \<le> x"
  with False have "0 < x"
    by simp
  then have "2 powi (ilog2 x) \<le> toDouble x"
    using toDouble_pos_bounds by blast
  moreover have "(0::rat) < 2 powi (ilog2 x)"
    by (simp add: zero_less_power_int)
  ultimately show ?thesis
    by linarith
qed

lemma toDouble_mono:
  assumes "0 \<le> x" "x \<le> y"
  shows "toDouble x \<le> toDouble y"
proof (cases "x = 0")
  case True
  then show ?thesis
    using assms toDouble_nonneg[of y] by (simp add: toDouble_def)
next
  case False
  with assms have "0 < x"
    by simp
  then show ?thesis
    using assms(2) by (rule toDouble_pos_mono)
qed

lemma toDouble_1: "toDouble 1 = 1"
  by code_simp

lemma toDouble_100: "toDouble 100 = 100"
  by code_simp

lemma mathRound_mono: "x \<le> y \<Longrightarrow> mathRound x \<le> mathRound y"
  by (simp add: mathRound_def floor_mono)

lemma percent_mono:
  assumes "i \<le> j"
  shows "percent i n \<le> percent j n"
proof -
  let ?q = "\<lambda>k. (of_nat (k + 1) / of_nat n :: rat)"
  have q: "0 \<le> ?q i" "?q i \<le> ?q j"
    using assms by (simp_all add: divide_right_mono)
  have "toDouble (?q i) \<le> toDouble (?q j)"
    using q by (rule toDouble_mono)
  moreover have "0 \<le> toDouble (?q i)"
    using q(1) by (rule toDouble_nonneg)
  ultimately have "0 \<le> toDouble (?q i) * 100" "toDouble (?q i) * 100 \<le> toDouble (?q j) * 100"
    by simp_all
  then have "toDouble (toDouble (?q i) * 100) \<le> toDouble (toDouble (?q j) * 100)"
    by (rule toDouble_mono)
  then show ?thesis
    unfolding percent_def by (rule mathRound_mono)
qed

lemma percent_last: "0 < n \<Longrightarrow> percent (n - 1) n = 100"
  by (simp add: percent_def toDouble_1 toDouble_100 mathRound_def floor_eq_iff)

lemma percent_nonneg: "0 \<le> percent i n"
proof -
  have "0 \<le> toDouble (of_nat (i + 1) / of_nat n) * 100"
    using toDouble_nonneg[of "of_nat (i + 1) / of_nat n"] by simp
  then have "0 \<le> toDouble (toDouble (of_nat (i + 1) / of_nat n) * 100)"
    by (rule toDouble_nonneg)
  then show ?thesis
    by (simp add: percent_def mathRound_def le_floor_iff)
qed

lemma percent_le_100: "i < n \<Longrightarrow> percent i n \<le> 100"
  using percent_mono[of i "n - 1" n] percent_last[of n] by simp

lemma percents_sorted: "sorted (map (\<lambda>k. percent k n) [0..<n])"
  by (simp add: sorted_iff_nth_mono percent_mono)

text \<open>
  Doubles, not exact fractions: 23/40 of 100 is 57.5 exactly, which would round to
  58, but the double nearest to 23/40 times 100 is just below 57.5.
\<close>

lemma percent_23_of_40: "percent 22 40 = 57"
  by code_simp

lemma percent_of_3:
  "percent 0 3 = 33" "percent (Suc 0) 3 = 67" "percent (Suc (Suc 0)) 3 = 100"
  by code_simp+

subsection \<open>Properties of the extractor\<close>

text \<open>
  C5. A grid with fewer than 2 rows makes \<^verbatim>\<open>parseExcelData\<close> throw the empty-input
  error, and a whole upload of such a grid ends there: the progress bar has been given
  0 and 30, and nothing else has changed; no call was made to the remote store, no
  record was stored in \<^verbatim>\<open>this._parsedData\<close>, no record was completed, no result was
  displayed.
\<close>

theorem C5_short_grid_throws:
  assumes "length jsonData < 2"
  shows "parseExcelData jsonData = Inl (Error emptyInputMessage)
       \<and> uploadAndProcessFile api (Some (Inr jsonData)) w
           = w\<lparr>progressLog := progressLog w @ [0, 30],
               timeline := timeline w @ [ProgressSet 0, ProgressSet 30]\<rparr>"
  using assms
  by (simp add: parseExcelData_def uploadAndProcessFile_def updateModalProgress_def)

theorem C5_short_grid_throws_witness:
  "length [RArr [CStr ''ID'', CStr ''Resp'']] < 2
   \<and> parseExcelData [RArr [CStr ''ID'', CStr ''Resp'']] = Inl (Error emptyInputMessage)
   \<and> calls (uploadAndProcessFile demoApi (Some (Inr [RArr [CStr ''ID'', CStr ''Resp'']])) demoWorld)
        = []"
proof -
  have h: "length [RArr [CStr ''ID'', CStr ''Resp'']] < 2"
    by simp
  show ?thesis
    using h C5_short_grid_throws[OF h, of demoApi demoWorld]
    by (simp add: demoWorld_def)
qed

text \<open>
  C2. For a grid with at least 2 rows \<^verbatim>\<open>parseExcelData\<close> returns, and what it returns
  are, in the order of the rows, the records of exactly those data rows (index 1 and
  up) that are array-shaped, have at least one column and whose column 0 stringifies
  and trims to a non-empty id. Every other data row is passed over without an error.
\<close>

theorem C2_records_are_the_rows_with_id:
  assumes "2 \<le> length jsonData"
  shows "\<exists>recs. parseExcelData jsonData = Inr recs
           \<and> map (\<lambda>rec. Inr (Some rec)) recs
               = map parseRow (filter emitsRecord (tl jsonData))
           \<and> (\<forall>row \<in> set (tl jsonData). \<not> emitsRecord row \<longrightarrow> parseRow row = Inr None)"
proof -
  have "map (\<lambda>rec. Inr (Some rec)) (List.map_filter rowRecord (tl jsonData))
        = map (Inr :: ExcelRow option \<Rightarrow> thrown + ExcelRow option)
            (map Some (List.map_filter rowRecord (tl jsonData)))"
    by simp
  also have "\<dots> = map Inr (map rowRecord (filter (\<lambda>x. rowRecord x \<noteq> None) (tl jsonData)))"
    by (simp only: map_filter_as_filter)
  also have "\<dots> = map parseRow (filter emitsRecord (tl jsonData))"
  proof -
    have f: "(\<lambda>x. rowRecord x \<noteq> None) = emitsRecord"
      by (rule ext) (rule rowRecord_emits)
    have g: "Inr \<circ> rowRecord = parseRow"
      by (rule ext) (simp add: parseRow_total)
    show ?thesis
      by (simp only: f g map_map)
  qed
  finally have a: "map (\<lambda>rec. Inr (Some rec)) (List.map_filter rowRecord (tl jsonData))
                     = map parseRow (filter emitsRecord (tl jsonData))" .
  have b: "parseRow row = Inr None" if "\<not> emitsRecord row" for row
    using that by (simp add: parseRow_total rowRecord_None)
  show ?thesis
    using assms a b by (simp add: parseExcelData_eq)
qed

theorem C2_records_are_the_rows_with_id_witness:
  "2 \<le> length specGrid
   \<and> (\<exists>recs. parseExcelData specGrid = Inr recs
           \<and> map (\<lambda>rec. Inr (Some rec)) recs
               = map parseRow (filter emitsRecord (tl specGrid))
           \<and> (\<forall>row \<in> set (tl specGrid). \<not> emitsRecord row \<longrightarrow> parseRow row = Inr None))
   \<and> filter emitsRecord (tl specGrid)
        = [RArr [CStr ''R1'', CStr ''Yes'', CStr ''ok''],
           RArr [CStr ''R2'', CStr '''', CStr ''comment''],
           RArr [CNum 42]]"
proof -
  have h: "2 \<le> length specGrid"
    by (simp add: specGrid_def)
  have f: "filter emitsRecord (tl specGrid)
        = [RArr [CStr ''R1'', CStr ''Yes'', CStr ''ok''],
           RArr [CStr ''R2'', CStr '''', CStr ''comment''],
           RArr [CNum 42]]"
    by (simp add: specGrid_def emitsRecord_def cellAt_def trim_def isWhiteSpace_def
          showInt_def showNat.simps digit_def)
  show ?thesis
    using h f C2_records_are_the_rows_with_id[OF h] by blast
qed

text \<open>
  The notes of a row come from column 3 only. The alternative of lines 261-269,
  column 2 when the response is still empty, asks for a non-blank column 2, which the
  response has then already taken; so a row of three cells never has notes.
\<close>

lemma notes_need_column_3:
  assumes "parseRow (RArr r) = Inr (Some rec)" and "length r \<le> 3"
  shows "Notes rec = []"
proof -
  have "\<not> nonBlank (cellAt r 3)"
    using assms(2) nonBlank_cellAt[of r 3] by auto
  then show ?thesis
    using assms(1) by (auto simp: parseCells_eq split: if_splits)
qed

text \<open>
  C7. For the row A1, R2, N2 the spec expects the response R2 and the notes N2, the
  three-column layout that the comments of lines 236 and 253 announce (response in
  index 1 or 2, notes in index 2 or 3). The code misses it: column 2 is non-empty, so
  the response takes it first, and the notes find no column 3 and column 2 taken. The
  record it returns has the notes text N2 as response and no notes; R2 is lost.
\<close>

theorem C7_three_column_row:
  "parseExcelData [header, RArr [CStr ''A1'', CStr ''R2'', CStr ''N2'']]
     = Inr [\<lparr>ID = ''A1'', Response = ''N2'', Notes = ''''\<rparr>]
   \<and> parseExcelData [header, RArr [CStr ''A1'', CStr ''R2'', CStr ''N2'']]
     \<noteq> Inr [\<lparr>ID = ''A1'', Response = ''R2'', Notes = ''N2''\<rparr>]"
  by (simp add: parseExcelData_eq List.map_filter_simps rowRecord_def parseCells_def
        nonBlank_def cellAt_def toStringTrim_def trim_def isWhiteSpace_def)

text \<open>
  C8, as the code has it. The response of an emitted record is the trimmed column 2
  when that cell is present and not the empty string, tested before trimming;
  otherwise the trimmed column 1 when that cell is present and not the empty string;
  otherwise the empty string. The row A1, empty, R, N gives response R and notes N.
\<close>

theorem C8_response_rule:
  "(parseRow (RArr r) = Inr (Some rec) \<longrightarrow>
      Response rec =
        (if nonBlank (cellAt r 2) then trim (toStringOrEmpty (cellAt r 2))
         else if nonBlank (cellAt r 1) then trim (toStringOrEmpty (cellAt r 1))
         else []))
   \<and> parseRow (RArr [CStr ''A1'', CStr '''', CStr ''R'', CStr ''N''])
       = Inr (Some \<lparr>ID = ''A1'', Response = ''R'', Notes = ''N''\<rparr>)"
proof -
  have "parseRow (RArr [CStr ''A1'', CStr '''', CStr ''R'', CStr ''N''])
       = Inr (Some \<lparr>ID = ''A1'', Response = ''R'', Notes = ''N''\<rparr>)"
    by (simp add: parseCells_def nonBlank_def cellAt_def toStringTrim_def trim_def
          isWhiteSpace_def)
  then show ?thesis
    by (auto simp: parseCells_eq split: if_splits)
qed

theorem C8_response_rule_witness:
  "parseRow (RArr [CStr ''B2'', CStr '' left '', CStr '''', CStr ''n''])
     = Inr (Some \<lparr>ID = ''B2'', Response = ''left'', Notes = ''n''\<rparr>)
   \<and> Response \<lparr>ID = ''B2'', Response = ''left'', Notes = ''n''\<rparr>
       = trim (toStringOrEmpty (cellAt [CStr ''B2'', CStr '' left '', CStr '''', CStr ''n''] 1))"
proof -
  have h: "parseRow (RArr [CStr ''B2'', CStr '' left '', CStr '''', CStr ''n''])
     = Inr (Some \<lparr>ID = ''B2'', Response = ''left'', Notes = ''n''\<rparr>)"
    by (simp add: parseCells_def nonBlank_def cellAt_def toStringTrim_def trim_def
          isWhiteSpace_def)
  show ?thesis
    using h C8_response_rule[of "[CStr ''B2'', CStr '' left '', CStr '''', CStr ''n'']"
            "\<lparr>ID = ''B2'', Response = ''left'', Notes = ''n''\<rparr>"]
    by (simp add: nonBlank_def cellAt_def)
qed

text \<open>
  C8 as the spec states it tests column 2 after trimming. On a row whose column 2 is
  two spaces the code takes that cell, trims it to nothing and does not look at
  column 1, where the spec's rule gives R.
\<close>

theorem C8_response_rule_counterexample:
  "parseRow (RArr [CStr ''A1'', CStr ''R'', CStr ''  ''])
     = Inr (Some \<lparr>ID = ''A1'', Response = [], Notes = []\<rparr>)
   \<and> specResponse [CStr ''A1'', CStr ''R'', CStr ''  ''] = ''R''"
  by (simp add: parseCells_def specResponse_def nonBlank_def cellAt_def toStringTrim_def
        trim_def isWhiteSpace_def)

text \<open>
  C10, as the code has it. The two copies of \<^verbatim>\<open>parseExcelData\<close> throw under the same
  condition, fewer than 2 rows, and return otherwise. What they return is equal when
  every data row is one both treat alike: not an array, or an array of at least 3
  cells with columns 0 and 2 not blank and columns 0, 2, 3 free of white space at the
  ends.
\<close>

theorem C10_two_copies:
  "isl (parseExcelData jsonData) = (length jsonData < 2)
   \<and> isl (parseExcelData2 jsonData) = (length jsonData < 2)
   \<and> ((\<forall>row \<in> set (tl jsonData). sameInBoth row)
        \<longrightarrow> parseExcelData jsonData = parseExcelData2 jsonData)"
proof (cases "length jsonData < 2")
  case True
  then show ?thesis
    by (simp add: parseExcelData_def parseExcelData2_def)
next
  case False
  then have "2 \<le> length jsonData"
    by simp
  then show ?thesis
    by (auto simp: parseExcelData_eq parseExcelData2_eq sameInBoth_rows
             intro: map_filter_cong_set)
qed

theorem C10_two_copies_witness:
  "list_all sameInBoth (tl [RArr [CStr ''ID''],
                            RArr [CStr ''B7'', CStr ''q1'', CStr ''Yes'', CStr ''ok''],
                            RNull,
                            RArr [CNum 7, CNull, CBool True]])
   \<and> parseExcelData [RArr [CStr ''ID''],
                      RArr [CStr ''B7'', CStr ''q1'', CStr ''Yes'', CStr ''ok''],
                      RNull,
                      RArr [CNum 7, CNull, CBool True]]
       = parseExcelData2 [RArr [CStr ''ID''],
                          RArr [CStr ''B7'', CStr ''q1'', CStr ''Yes'', CStr ''ok''],
                          RNull,
                          RArr [CNum 7, CNull, CBool True]]"
proof -
  have h: "list_all sameInBoth (tl [RArr [CStr ''ID''],
                         RArr [CStr ''B7'', CStr ''q1'', CStr ''Yes'', CStr ''ok''],
                         RNull,
                         RArr [CNum 7, CNull, CBool True]])"
    by (simp add: sameInBoth_def nonBlank_def cellAt_def trim_def isWhiteSpace_def
          showInt_def showNat.simps digit_def)
  show ?thesis
    using h C10_two_copies[of "[RArr [CStr ''ID''],
                         RArr [CStr ''B7'', CStr ''q1'', CStr ''Yes'', CStr ''ok''],
                         RNull,
                         RArr [CNum 7, CNull, CBool True]]"]
    unfolding list_all_iff by blast
qed

text \<open>
  C10 as stated fails on a data row of two cells: the first copy keeps it, the second
  asks for three cells and drops it. Both return.
\<close>

theorem C10_two_copies_counterexample:
  "parseExcelData [RArr [CStr ''ID'', CStr ''Response''], RArr [CStr ''A1'', CStr ''R'']]
     = Inr [\<lparr>ID = ''A1'', Response = ''R'', Notes = ''''\<rparr>]
   \<and> parseExcelData2 [RArr [CStr ''ID'', CStr ''Response''], RArr [CStr ''A1'', CStr ''R'']]
     = Inr []"
  by (simp add: parseExcelData_def parseExcelData2_def parseLoop.simps parseLoop2.simps
        parseCells_def nonBlank_def cellAt_def toStringTrim_def trim_def isWhiteSpace_def)

subsection \<open>Properties of the update loop\<close>

text \<open>
  C1. Processing a batch yields exactly one outcome per record, in input order and
  with the record's id, and outcome number i is the outcome of reconciling record
  number i against the store as the records before it left it: the categories of the
  outcomes are those of the spec's run over the whole batch, the \<^verbatim>\<open>success\<close> flag is
  set exactly for the category Updated, so every NotFound, AccessError, NoOpError and
  UpdateFailed is an outcome value with \<open>success = False\<close>, and the store ends as
  that run leaves it. For a non-empty batch this list is what is displayed. On a
  single record, for every remote store in every state, the per-record function
  returns (its promise is never rejected) the outcome of the spec's category.
\<close>

theorem C1_one_outcome_per_record:
  "(let results = fst (processLoop api (thisParsedData w) 0 [] w);
        final = snd (processLoop api (thisParsedData w) 0 [] w)
    in length results = length (thisParsedData w)
      \<and> map recordId results = map ID (thisParsedData w)
      \<and> map classify results = map Some (fst (specRun api (thisParsedData w) (remote w)))
      \<and> map success results
          = map (\<lambda>c. c = Updated) (fst (specRun api (thisParsedData w) (remote w)))
      \<and> remote final = snd (specRun api (thisParsedData w) (remote w))
      \<and> (thisParsedData w \<noteq> [] \<longrightarrow> displayed (processDataverseUpdates api w) = Some results))
   \<and> (\<exists>r w1. updateDataverseRecord api row w = (Inr r, w1) \<and> recordId r = ID row
          \<and> classify r = Some (fst (specReconcile api row (remote w)))
          \<and> success r = (fst (specReconcile api row (remote w)) = Updated)
          \<and> remote w1 = snd (specReconcile api row (remote w)))"
proof -
  let ?results = "fst (processLoop api (thisParsedData w) 0 [] w)"
  let ?final = "snd (processLoop api (thisParsedData w) 0 [] w)"
  from processLoop_run[of api "thisParsedData w" 0 "[]" w]
  have a: "length ?results = length (thisParsedData w)"
    "map recordId ?results = map ID (thisParsedData w)"
    "map classify ?results = map Some (fst (specRun api (thisParsedData w) (remote w)))"
    "map success ?results
       = map (\<lambda>c. c = Updated) (fst (specRun api (thisParsedData w) (remote w)))"
    "remote ?final = snd (specRun api (thisParsedData w) (remote w))"
    by auto
  have d: "thisParsedData w \<noteq> [] \<longrightarrow> displayed (processDataverseUpdates api w) = Some ?results"
    by (simp add: processDataverseUpdates_final displayModalResults_def)
  from updateDataverseRecord_spec[of api row w]
  obtain r w1 where u: "updateDataverseRecord api row w = (Inr r, w1) \<and> recordId r = ID row
       \<and> classify r = Some (fst (specReconcile api row (remote w)))
       \<and> success r = (fst (specReconcile api row (remote w)) = Updated)
       \<and> remote w1 = snd (specReconcile api row (remote w))
       \<and> progressLog w1 = progressLog w \<and> timeline w1 = timeline w
       \<and> thisParsedData w1 = thisParsedData w \<and> displayed w1 = displayed w"
    by (elim exE)
  then have e: "\<exists>r w1. updateDataverseRecord api row w = (Inr r, w1) \<and> recordId r = ID row
          \<and> classify r = Some (fst (specReconcile api row (remote w)))
          \<and> success r = (fst (specReconcile api row (remote w)) = Updated)
          \<and> remote w1 = snd (specReconcile api row (remote w))"
    by (intro exI[of _ r] exI[of _ w1]) simp
  show ?thesis
    using a d e by (simp add: Let_def)
qed

text \<open>The demonstration batch: B7 is not in the store, the two A1 records are updated.\<close>

lemma specRun_demo: "specRun demoApi demoRows 0 = ([NotFound, Updated, Updated], 2)"
proof -
  have t: "trim ''B7'' = ''B7''" "trim ''A1'' = ''A1''" "trim ''Yes'' = ''Yes''"
    "trim ''ok'' = ''ok''" "trim ''No'' = ''No''" "trim ''q3'' = ''q3''"
    by (simp_all add: trim_def isWhiteSpace_def)
  have q: "filterQuery ''B7'' \<noteq> filterQuery ''A1''"
    by (simp add: filterQuery_def)
  have r: "specReconcile demoApi \<lparr>ID = ''B7'', Response = ''Yes'', Notes = ''ok''\<rparr> s
             = (NotFound, s)"
    "specReconcile demoApi \<lparr>ID = ''A1'', Response = ''No'', Notes = []\<rparr> s = (Updated, Suc s)"
    "specReconcile demoApi \<lparr>ID = ''A1'', Response = ''q3'', Notes = []\<rparr> s = (Updated, Suc s)"
    for s
    by (simp_all add: specReconcile_def specApply_def specPayload_def demoApi_def t q trim_Nil)
  show ?thesis
    by (simp add: demoRows_def r)
qed

theorem C1_one_outcome_per_record_witness:
  "map recordId (fst (processLoop demoApi (thisParsedData demoLoaded) 0 [] demoLoaded))
       = [''B7'', ''A1'', ''A1'']
   \<and> map classify (fst (processLoop demoApi (thisParsedData demoLoaded) 0 [] demoLoaded))
       = [Some NotFound, Some Updated, Some Updated]
   \<and> map success (fst (processLoop demoApi (thisParsedData demoLoaded) 0 [] demoLoaded))
       = [False, True, True]
   \<and> remote (snd (processLoop demoApi (thisParsedData demoLoaded) 0 [] demoLoaded)) = 2
   \<and> displayed (processDataverseUpdates demoApi demoLoaded)
       = Some (fst (processLoop demoApi (thisParsedData demoLoaded) 0 [] demoLoaded))"
proof -
  have h: "thisParsedData demoLoaded = demoRows" "remote demoLoaded = 0"
    by (simp_all add: demoLoaded_def demoWorld_def)
  have n: "demoRows \<noteq> []" "map ID demoRows = [''B7'', ''A1'', ''A1'']"
    by (simp_all add: demoRows_def)
  show ?thesis
    using C1_one_outcome_per_record[where api=demoApi and w=demoLoaded and row="hd demoRows"] n
    unfolding Let_def h specRun_demo by simp
qed

text \<open>
  C3. When the query against the primary collection is rejected, the same query
  against the alternate collection name returns at least one entity, and the update
  call that follows (there is one when the response or the notes are not empty after
  trimming) resolves, the record's outcome is the success outcome.
\<close>

theorem C3_fallback_lookup_succeeds:
  assumes primary: "retrieveMultipleRecords api ''afsdc_questionresponseinstances''
                      (filterQuery (trim (ID row))) (remote w) = (Inl e1, s1)"
    and alternate: "retrieveMultipleRecords api ''afsdc_questionresponseinstance''
                      (filterQuery (trim (ID row))) s1 = (Inr (Some (ent # ents)), s2)"
    and called: "updateData row \<noteq> []"
    and updated: "updateRecord api ''afsdc_questionresponseinstance''
                      (afsdc_questionresponseinstanceid ent) (updateData row) s2 = (Inr (), s3)"
  shows "fst (updateDataverseRecord api row w)
           = Inr \<lparr>success = True, recordId = ID row, error = None\<rparr>"
proof -
  have l: "lookupRecord api row (trim (ID row)) w =
             (Inr (Some (ent # ents)),
              w\<lparr>remote := s2,
                calls := calls w
                  @ [RetrieveMultipleRecords ''afsdc_questionresponseinstances''
                       (filterQuery (trim (ID row))),
                     RetrieveMultipleRecords ''afsdc_questionresponseinstance''
                       (filterQuery (trim (ID row)))]\<rparr>)"
    using primary alternate by (simp add: lookupRecord_def callRetrieve_def)
  show ?thesis
    using called updated
    by (simp add: updateDataverseRecord_def tryUpdate_def Let_def l callUpdate_def)
qed

theorem C3_fallback_lookup_succeeds_witness:
  "fst (retrieveMultipleRecords demoApi ''afsdc_questionresponseinstances''
          (filterQuery (trim (ID \<lparr>ID = ''A1'', Response = ''Yes'', Notes = []\<rparr>)))
          (remote demoWorld))
      = Inl (Error ''Resource not found for the segment'')
   \<and> updateData \<lparr>ID = ''A1'', Response = ''Yes'', Notes = []\<rparr> = [(''afsdc_response'', ''Yes'')]
   \<and> fst (updateDataverseRecord demoApi \<lparr>ID = ''A1'', Response = ''Yes'', Notes = []\<rparr> demoWorld)
      = Inr \<lparr>success = True, recordId = ''A1'', error = None\<rparr>"
proof -
  let ?row = "\<lparr>ID = ''A1'', Response = ''Yes'', Notes = []\<rparr>"
  have t: "trim ''A1'' = ''A1''" "trim ''Yes'' = ''Yes''"
    by (simp_all add: trim_def isWhiteSpace_def)
  have u: "updateData ?row = [(''afsdc_response'', ''Yes'')]"
    by (simp add: updateData_def t trim_Nil)
  have h1: "retrieveMultipleRecords demoApi ''afsdc_questionresponseinstances''
              (filterQuery (trim (ID ?row))) (remote demoWorld)
            = (Inl (Error ''Resource not found for the segment''), 0)"
    by (simp add: demoApi_def demoWorld_def)
  have h2: "retrieveMultipleRecords demoApi ''afsdc_questionresponseinstance''
              (filterQuery (trim (ID ?row))) 0
            = (Inr (Some (\<lparr>afsdc_questionresponseinstanceid = ''guid-1'',
                              afsdc_name = ''A1''\<rparr> # [])), 0)"
    by (simp add: demoApi_def t)
  have h3: "updateData ?row \<noteq> []"
    by (simp add: u)
  have h4: "updateRecord demoApi ''afsdc_questionresponseinstance''
              (afsdc_questionresponseinstanceid
                 \<lparr>afsdc_questionresponseinstanceid = ''guid-1'', afsdc_name = ''A1''\<rparr>)
              (updateData ?row) 0 = (Inr (), Suc 0)"
    by (simp add: demoApi_def)
  show ?thesis
    using C3_fallback_lookup_succeeds[OF h1 h2 h3 h4] h1 u by simp
qed

text \<open>
  C4. For a record whose response and notes are both empty after trimming and whose
  lookup resolves an entity, the outcome is the "nothing to update" failure, and the
  call log holds no update call that was not there before.
\<close>

theorem C4_nothing_to_update:
  assumes "trim (Response row) = []" and "trim (Notes row) = []"
    and resolved: "lookupRecord api row (trim (ID row)) w = (Inr (Some (ent # ents)), w1)"
  shows "updateDataverseRecord api row w =
           (Inr \<lparr>success = False, recordId = ID row,
                 error = Some ''No data to update (Response and Notes are empty)''\<rparr>, w1)
         \<and> filter isUpdateCall (calls w1) = filter isUpdateCall (calls w)"
proof -
  have u: "updateData row = []"
    using assms(1,2) by (simp add: updateData_def)
  show ?thesis
    using lookupRecord_frame[OF resolved]
    by (simp add: updateDataverseRecord_def tryUpdate_def Let_def resolved u)
qed

theorem C4_nothing_to_update_witness:
  "trim (Response \<lparr>ID = ''A1'', Response = ''  '', Notes = []\<rparr>) = []
   \<and> fst (updateDataverseRecord demoApi \<lparr>ID = ''A1'', Response = ''  '', Notes = []\<rparr> demoWorld)
       = Inr \<lparr>success = False, recordId = ''A1'',
              error = Some ''No data to update (Response and Notes are empty)''\<rparr>
   \<and> calls (snd (updateDataverseRecord demoApi \<lparr>ID = ''A1'', Response = ''  '', Notes = []\<rparr>
                    demoWorld))
       = [RetrieveMultipleRecords ''afsdc_questionresponseinstances'' (filterQuery ''A1''),
          RetrieveMultipleRecords ''afsdc_questionresponseinstance'' (filterQuery ''A1'')]"
proof -
  let ?row = "\<lparr>ID = ''A1'', Response = ''  '', Notes = []\<rparr>"
  let ?w1 = "demoWorld\<lparr>remote := 0,
                calls := calls demoWorld
                  @ [RetrieveMultipleRecords ''afsdc_questionresponseinstances''
                       (filterQuery ''A1''),
                     RetrieveMultipleRecords ''afsdc_questionresponseinstance''
                       (filterQuery ''A1'')]\<rparr>"
  have t: "trim (ID ?row) = ''A1''"
    by (simp add: trim_def isWhiteSpace_def)
  have h1: "trim (Response ?row) = []"
    by (simp add: trim_def isWhiteSpace_def)
  have h2: "trim (Notes ?row) = []"
    by (simp add: trim_Nil)
  have h3: "lookupRecord demoApi ?row (trim (ID ?row)) demoWorld
            = (Inr (Some (\<lparr>afsdc_questionresponseinstanceid = ''guid-1'',
                              afsdc_name = ''A1''\<rparr> # [])), ?w1)"
    unfolding t by (simp add: lookupRecord_def callRetrieve_def demoApi_def demoWorld_def)
  show ?thesis
    using C4_nothing_to_update[OF h1 h2 h3] h1 by (simp add: demoWorld_def)
qed



text \<open>
  C9, as the code has it. Every percentage given to the progress bar during an upload
  lies between 0 and 100. The upload first gives some initial part of 0, 30, 50 (all
  three when the sheet yields records); the per-record percentages follow and are
  non-decreasing among themselves.
\<close>

theorem C9_progress_in_range_and_stagewise_monotone:
  "\<exists>k ps. progressLog (uploadAndProcessFile api file w)
             = progressLog w @ take k [0, 30, 50] @ ps
      \<and> sorted ps \<and> (\<forall>p \<in> set (take k [0, 30, 50] @ ps). 0 \<le> p \<and> p \<le> 100)"
proof -
  let ?P = "\<lambda>k ps. progressLog (uploadAndProcessFile api file w)
                      = progressLog w @ take k [0, 30, 50] @ ps
      \<and> sorted ps \<and> (\<forall>p \<in> set (take k [0, 30, 50] @ ps). 0 \<le> p \<and> p \<le> 100)"
  consider (none) "file = None" | (bad) e where "file = Some (Inl e)"
    | (short) jsonData e where "file = Some (Inr jsonData)" "parseExcelData jsonData = Inl e"
    | (empty) jsonData where "file = Some (Inr jsonData)" "parseExcelData jsonData = Inr []"
    | (run) jsonData parsed where "file = Some (Inr jsonData)"
        "parseExcelData jsonData = Inr parsed" "parsed \<noteq> []"
    by (cases "file"; cases "the file"; cases "parseExcelData (projr (the file))";
        cases "projr (parseExcelData (projr (the file)))") auto
  then show ?thesis
  proof cases
    case none
    then have "?P 0 []"
      by (simp add: uploadAndProcessFile_def)
    then show ?thesis by blast
  next
    case bad
    then have "?P 1 []"
      by (simp add: uploadAndProcessFile_def updateModalProgress_def)
    then show ?thesis by blast
  next
    case short
    then have "?P 2 []"
      by (simp add: uploadAndProcessFile_def updateModalProgress_def numeral_2_eq_2)
    then show ?thesis by blast
  next
    case empty
    then have "?P 2 []"
      by (simp add: uploadAndProcessFile_def updateModalProgress_def numeral_2_eq_2)
    then show ?thesis by blast
  next
    case run
    let ?n = "length parsed"
    have "?P 3 (map (\<lambda>k. percent k ?n) [0..<?n])"
      using run percents_sorted[of ?n]
      by (auto simp: uploadAndProcessFile_def updateModalProgress_def
            processDataverseUpdates_progress percent_nonneg percent_le_100)
    then show ?thesis by blast
  qed
qed

theorem C9_progress_in_range_and_stagewise_monotone_witness:
  "\<exists>k ps. progressLog (uploadAndProcessFile demoApi (Some (Inr demoGrid)) demoWorld)
             = progressLog demoWorld @ take k [0, 30, 50] @ ps
      \<and> sorted ps \<and> (\<forall>p \<in> set (take k [0, 30, 50] @ ps). 0 \<le> p \<and> p \<le> 100)"
  by (rule C9_progress_in_range_and_stagewise_monotone)

text \<open>
  C9 as stated fails for a sheet of three records: the bar is given 0, 30, 50 while the
  file is read and parsed, and 33 after the first record.
\<close>

theorem C9_progress_in_range_and_stagewise_monotone_counterexample:
  "\<not> sorted (progressLog (uploadAndProcessFile demoApi (Some (Inr demoGrid)) demoWorld))"
proof -
  have p: "parseExcelData demoGrid = Inr demoRows"
    by (simp add: demoGrid_def demoRows_def parseExcelData_def parseLoop.simps parseCells_def
          nonBlank_def cellAt_def toStringTrim_def trim_def isWhiteSpace_def)
  have n: "demoRows \<noteq> []" "length demoRows = 3"
    by (simp_all add: demoRows_def)
  have "progressLog (uploadAndProcessFile demoApi (Some (Inr demoGrid)) demoWorld)
          = [0, 30, 50, 33, 67, 100]"
    using n
    by (simp add: uploadAndProcessFile_def p updateModalProgress_def
          processDataverseUpdates_progress demoWorld_def percent_of_3 upt_conv_Cons)
  then show ?thesis
    by simp
qed

end

